theory Spec2Isabelle
  imports Complex_Main "HOL-Library.Sublist" "HOL-Library.Product_Lexorder" "HOL-Library.Multiset"
begin

section \<open>Request bodies, schema validation and responses\<close>

text \<open>
  The handlers of \<^verbatim>\<open>server/routes.ts\<close> read a JSON request body, validate it with a
  zod schema, call a collaborator (storage, the crawler service, the scheduler) and
  answer with a status code and a JSON value.  A JSON number is a rational here (every
  finite double is one); an object is an association list in which, as in
  \<^verbatim>\<open>JSON.parse\<close>, the last binding of a repeated key is the one that counts.
\<close>

datatype json =
    JNull
  | JBool bool
  | JNum rat
  | JStr string
  | JArr "json list"
  | JObj "(string \<times> json) list"

text \<open>What a handler can catch: a \<^verbatim>\<open>ZodError\<close> or any other thrown value.\<close>

datatype exn = ZodError | Thrown string

text \<open>A response: \<^verbatim>\<open>res.status(n).json(v)\<close> with a payload, or with a message object.\<close>

datatype 'a response = Reply nat 'a | Failure nat string

definition property :: "(string \<times> json) list \<Rightarrow> string \<Rightarrow> json option" where
  "property props key = map_of (rev props) key"

text \<open>\<^verbatim>\<open>z.object({...})\<close> accepts objects only (not arrays, not null).\<close>

definition z_object :: "json \<Rightarrow> exn + (string \<times> json) list" where
  "z_object v = (case v of JObj props \<Rightarrow> Inr props | _ \<Rightarrow> Inl ZodError)"

definition z_number :: "json option \<Rightarrow> exn + rat" where
  "z_number v = (case v of Some (JNum n) \<Rightarrow> Inr n | _ \<Rightarrow> Inl ZodError)"

definition z_string :: "json option \<Rightarrow> exn + string" where
  "z_string v = (case v of Some (JStr s) \<Rightarrow> Inr s | _ \<Rightarrow> Inl ZodError)"

definition z_boolean :: "json option \<Rightarrow> exn + bool" where
  "z_boolean v = (case v of Some (JBool b) \<Rightarrow> Inr b | _ \<Rightarrow> Inl ZodError)"

fun z_strings :: "json list \<Rightarrow> exn + string list" where
  "z_strings [] = Inr []"
| "z_strings (v # vs) =
    (case z_string (Some v) of
       Inl e \<Rightarrow> Inl e
     | Inr s \<Rightarrow> (case z_strings vs of Inl e \<Rightarrow> Inl e | Inr ss \<Rightarrow> Inr (s # ss)))"

definition z_array_string :: "json option \<Rightarrow> exn + string list" where
  "z_array_string v = (case v of Some (JArr vs) \<Rightarrow> z_strings vs | _ \<Rightarrow> Inl ZodError)"

text \<open>\<^verbatim>\<open>.optional()\<close>: a missing property is accepted, anything else goes to the inner schema.\<close>

definition z_optional :: "(json option \<Rightarrow> exn + 'a) \<Rightarrow> json option \<Rightarrow> exn + 'a option" where
  "z_optional inner v =
    (case v of
       None \<Rightarrow> Inr None
     | Some w \<Rightarrow> (case inner (Some w) of Inl e \<Rightarrow> Inl e | Inr a \<Rightarrow> Inr (Some a)))"

section \<open>POST /api/run-crawler\<close>

text \<open>
  \<^verbatim>\<open>
  const schema = z.object({ subreddits: z.array(z.string()).optional() });
  const { subreddits } = schema.parse(req.body);
  const subredditList = subreddits && subreddits.length > 0 ? subreddits : getAllSubreddits();
  const crawlHistory = await DotNetCrawlerService.runCrawler(subredditList);
  res.json(crawlHistory);
  ... catch (error) { ZodError -> 400 "Invalid request data"; otherwise 500 "Failed to run crawler" }
  \<close>
  \<^verbatim>\<open>getAllSubreddits\<close> (server/subredditList) and the crawler service are not part of the
  file; the standard list and the crawler are parameters.  The crawler works on a state
  of its own and either throws or returns a crawl history, an object (so that reading
  its \<^verbatim>\<open>id\<close> and \<^verbatim>\<open>threadCount\<close> for the log line does not throw).  The log lines
  are left out.
\<close>

definition run_crawler_schema :: "json \<Rightarrow> exn + string list option" where
  "run_crawler_schema body =
    (case z_object body of
       Inl e \<Rightarrow> Inl e
     | Inr props \<Rightarrow> z_optional z_array_string (property props ''subreddits''))"

definition subredditList :: "string list \<Rightarrow> string list option \<Rightarrow> string list" where
  "subredditList getAllSubreddits subreddits =
    (case subreddits of
       None \<Rightarrow> getAllSubreddits
     | Some l \<Rightarrow> if length l > 0 then l else getAllSubreddits)"

definition run_crawler_catch :: "exn \<Rightarrow> 'h response" where
  "run_crawler_catch e =
    (if e = ZodError then Failure 400 ''Invalid request data''
     else Failure 500 ''Failed to run crawler'')"

definition run_crawler_reply :: "(exn + 'h) \<times> 'st \<Rightarrow> 'h response \<times> 'st" where
  "run_crawler_reply outcome =
    (case outcome of
       (Inl e, st') \<Rightarrow> (run_crawler_catch e, st')
     | (Inr crawlHistory, st') \<Rightarrow> (Reply 200 crawlHistory, st'))"

definition run_crawler_route ::
  "string list \<Rightarrow> (string list \<Rightarrow> 'st \<Rightarrow> (exn + 'h) \<times> 'st) \<Rightarrow> json \<Rightarrow> 'st \<Rightarrow> 'h response \<times> 'st"
where
  "run_crawler_route getAllSubreddits runCrawler body st =
    (case run_crawler_schema body of
       Inl e \<Rightarrow> (run_crawler_catch e, st)
     | Inr subreddits \<Rightarrow>
         run_crawler_reply (runCrawler (subredditList getAllSubreddits subreddits) st))"

text \<open>
  A crawler for concrete runs: it appends the list it was called with to its log and
  returns the number of sources as its history.
\<close>

definition logging_crawler ::
  "string list \<Rightarrow> string list list \<Rightarrow> (exn + nat) \<times> string list list" where
  "logging_crawler subs calls = (Inr (length subs), calls @ [subs])"

section \<open>POST /api/serp-results\<close>

text \<open>
  \<^verbatim>\<open>
  const schema = z.object({ threadId: z.number(), query: z.string(),
                            position: z.number(), isRanked: z.boolean() });
  const serpResultData = schema.parse(req.body);
  const serpResult = await storage.createSerpResult(serpResultData);
  res.status(201).json(serpResult);
  ... catch (error) { ZodError -> 400 "Invalid request data"; otherwise 500 }
  \<close>
  The storage is a parameter: it takes the validated data and its own state.
\<close>

record serp_result_data =
  threadId :: rat
  query :: string
  position :: rat
  isRanked :: bool

definition serp_result_schema :: "json \<Rightarrow> exn + serp_result_data" where
  "serp_result_schema body =
    (case z_object body of
       Inl e \<Rightarrow> Inl e
     | Inr props \<Rightarrow>
        (case z_number (property props ''threadId'') of
           Inl e \<Rightarrow> Inl e
         | Inr t \<Rightarrow>
            (case z_string (property props ''query'') of
               Inl e \<Rightarrow> Inl e
             | Inr q \<Rightarrow>
                (case z_number (property props ''position'') of
                   Inl e \<Rightarrow> Inl e
                 | Inr p \<Rightarrow>
                    (case z_boolean (property props ''isRanked'') of
                       Inl e \<Rightarrow> Inl e
                     | Inr r \<Rightarrow>
                         Inr \<lparr>threadId = t, query = q, position = p, isRanked = r\<rparr>)))))"

definition create_serp_catch :: "exn \<Rightarrow> 'r response" where
  "create_serp_catch e =
    (if e = ZodError then Failure 400 ''Invalid request data''
     else Failure 500 ''Failed to create SERP result'')"

definition create_serp_reply :: "(exn + 'r) \<times> 'st \<Rightarrow> 'r response \<times> 'st" where
  "create_serp_reply outcome =
    (case outcome of
       (Inl e, st') \<Rightarrow> (create_serp_catch e, st')
     | (Inr serpResult, st') \<Rightarrow> (Reply 201 serpResult, st'))"

definition create_serp_result_route ::
  "(serp_result_data \<Rightarrow> 'st \<Rightarrow> (exn + 'r) \<times> 'st) \<Rightarrow> json \<Rightarrow> 'st \<Rightarrow> 'r response \<times> 'st"
where
  "create_serp_result_route createSerpResult body st =
    (case serp_result_schema body of
       Inl e \<Rightarrow> (create_serp_catch e, st)
     | Inr serpResultData \<Rightarrow> create_serp_reply (createSerpResult serpResultData st))"

text \<open>A storage for concrete runs: the table is the list of the rows created so far.\<close>

definition appending_storage ::
  "serp_result_data \<Rightarrow> serp_result_data list \<Rightarrow> (exn + serp_result_data) \<times> serp_result_data list"
where
  "appending_storage row rows = (Inr row, rows @ [row])"

section \<open>POST /api/generate-comment\<close>

text \<open>
  \<^verbatim>\<open>String.prototype.replaceAll(searchString, replaceValue)\<close> with two strings replaces
  the matches of the search string found from left to right, each search resuming behind
  the previous match.  The replacement text is not copied as it is: \<^verbatim>\<open>$$\<close> stands for a
  dollar sign, \<^verbatim>\<open>$&\<close> for the matched text, \<^verbatim>\<open>$`\<close> and \<^verbatim>\<open>$'\<close> for the text before
  and behind the match; as a string pattern has no capture groups, every other use of the
  dollar sign is literal (\<^verbatim>\<open>GetSubstitution\<close> of ECMAScript).
\<close>

fun getSubstitution :: "string \<Rightarrow> string \<Rightarrow> string \<Rightarrow> string \<Rightarrow> string" where
  "getSubstitution matched pre post [] = []"
| "getSubstitution matched pre post [c] = [c]"
| "getSubstitution matched pre post (c # d # r) =
    (if c = CHR ''$'' \<and> d = CHR ''$'' then CHR ''$'' # getSubstitution matched pre post r
     else if c = CHR ''$'' \<and> d = CHR ''&'' then matched @ getSubstitution matched pre post r
     else if c = CHR ''$'' \<and> d = CHR 0x60 then pre @ getSubstitution matched pre post r
     else if c = CHR ''$'' \<and> d = CHR 0x27 then post @ getSubstitution matched pre post r
     else c # getSubstitution matched pre post (d # r))"

text \<open>
  The scan keeps the text already passed (\<open>preceding\<close>) for \<^verbatim>\<open>$`\<close>.  An empty search string
  matches in front of every character and at the end.
\<close>

function replaceAll_from :: "string \<Rightarrow> string \<Rightarrow> string \<Rightarrow> string \<Rightarrow> string" where
  "replaceAll_from pat rep preceding [] =
    (if pat = [] then getSubstitution [] preceding [] rep else [])"
| "replaceAll_from pat rep preceding (c # cs) =
    (if pat = [] then
       getSubstitution [] preceding (c # cs) rep @ c # replaceAll_from pat rep (preceding @ [c]) cs
     else if prefix pat (c # cs) then
       getSubstitution pat preceding (drop (length pat) (c # cs)) rep @
         replaceAll_from pat rep (preceding @ pat) (drop (length pat) (c # cs))
     else c # replaceAll_from pat rep (preceding @ [c]) cs)"
  by pat_completeness auto
termination
  by (relation "measure (\<lambda>(pat, rep, preceding, s). length s)") auto

definition replaceAll :: "string \<Rightarrow> string \<Rightarrow> string \<Rightarrow> string" where
  "replaceAll s searchString replaceValue = replaceAll_from searchString replaceValue [] s"

text \<open>
  \<^verbatim>\<open>
  let comment = template.template;
  comment = comment.replaceAll('{{program}}', program.name);
  comment = comment.replaceAll('{{link}}', program.link);
  comment = comment.replaceAll('{{promo_code}}', program.promoCode || '');
  comment = comment.replaceAll('{{benefit}}', 'it has specialized templates ...');
  ... (eighteen fixed texts in all)
  res.json({ comment });
  \<close>
\<close>

record affiliate_program =
  name :: string
  link :: string
  promoCode :: "string option"

record comment_template =
  template :: string

definition promo_code_or_empty :: "affiliate_program \<Rightarrow> string" where
  "promo_code_or_empty program = (case promoCode program of None \<Rightarrow> [] | Some code \<Rightarrow> code)"

definition fill_placeholders :: "affiliate_program \<Rightarrow> string \<Rightarrow> string" where
  "fill_placeholders program text0 =
    (let comment = text0;
         comment = replaceAll comment ''{{program}}'' (name program);
         comment = replaceAll comment ''{{link}}'' (link program);
         comment = replaceAll comment ''{{promo_code}}'' (promo_code_or_empty program);
         comment = replaceAll comment ''{{benefit}}''
           ''it has specialized templates for blog posts, articles, and social media content'';
         comment = replaceAll comment ''{{feature}}'' ''the Boss Mode plan'';
         comment = replaceAll comment ''{{advantage}}''
           ''write long-form content with AI continuing your thoughts'';
         comment = replaceAll comment ''{{reason}}''
           ''of its versatility and user-friendly interface'';
         comment = replaceAll comment ''{{use_case}}'' ''blog posts and social media content'';
         comment = replaceAll comment ''{{use_case_1}}'' ''Blog post outlines'';
         comment = replaceAll comment ''{{use_case_2}}'' ''Full blog articles'';
         comment = replaceAll comment ''{{use_case_3}}'' ''Social media captions'';
         comment = replaceAll comment ''{{limitation}}''
           ''the depth of long-form content generation'';
         comment = replaceAll comment ''{{drawback}}'' ''requires more editing'';
         comment = replaceAll comment ''{{improvement}}'' ''increased by 200%'';
         comment = replaceAll comment ''{{advantage_1}}''
           ''Specialized templates for your exact content needs'';
         comment = replaceAll comment ''{{advantage_2}}''
           ''High-quality output requiring minimal editing'';
         comment = replaceAll comment ''{{advantage_3}}''
           ''Excellent customer support and regular updates'';
         comment = replaceAll comment ''{{plan}}'' ''Creator'';
         comment = replaceAll comment ''{{price}}'' ''$49'';
         comment = replaceAll comment ''{{result}}''
           ''have seen a 70% reduction in content creation time'';
         comment = replaceAll comment ''{{discount}}'' ''20% off your first month''
     in comment)"

text \<open>
  The handler: the three identifiers are validated, the three rows are fetched (a fetch
  can throw), a missing row is answered with 404, otherwise the comment is answered.
\<close>

definition generate_comment_schema :: "json \<Rightarrow> exn + rat \<times> rat \<times> rat" where
  "generate_comment_schema body =
    (case z_object body of
       Inl e \<Rightarrow> Inl e
     | Inr props \<Rightarrow>
        (case z_number (property props ''threadId'') of
           Inl e \<Rightarrow> Inl e
         | Inr t \<Rightarrow>
            (case z_number (property props ''affiliateProgramId'') of
               Inl e \<Rightarrow> Inl e
             | Inr a \<Rightarrow>
                (case z_number (property props ''templateId'') of
                   Inl e \<Rightarrow> Inl e
                 | Inr m \<Rightarrow> Inr (t, a, m)))))"

definition generate_comment_catch :: "exn \<Rightarrow> string response" where
  "generate_comment_catch e =
    (if e = ZodError then Failure 400 ''Invalid request data''
     else Failure 500 ''Failed to generate comment'')"

definition generate_comment_route ::
  "(rat \<Rightarrow> exn + 'thread option) \<Rightarrow> (rat \<Rightarrow> exn + affiliate_program option) \<Rightarrow>
   (rat \<Rightarrow> exn + comment_template option) \<Rightarrow> json \<Rightarrow> string response"
where
  "generate_comment_route getThreadById getAffiliateProgramById getCommentTemplateById body =
    (case generate_comment_schema body of
       Inl e \<Rightarrow> generate_comment_catch e
     | Inr (tid, pid, mid) \<Rightarrow>
        (case getThreadById tid of
           Inl e \<Rightarrow> generate_comment_catch e
         | Inr thread \<Rightarrow>
            (case getAffiliateProgramById pid of
               Inl e \<Rightarrow> generate_comment_catch e
             | Inr program \<Rightarrow>
                (case getCommentTemplateById mid of
                   Inl e \<Rightarrow> generate_comment_catch e
                 | Inr tmpl \<Rightarrow>
                    (case thread of
                       None \<Rightarrow> Failure 404 ''Thread not found''
                     | Some _ \<Rightarrow>
                        (case program of
                           None \<Rightarrow> Failure 404 ''Affiliate program not found''
                         | Some prog \<Rightarrow>
                            (case tmpl of
                               None \<Rightarrow> Failure 404 ''Template not found''
                             | Some tm \<Rightarrow>
                                 Reply 200 (fill_placeholders prog (template tm)))))))))"

text \<open>
  A template seen as a sequence of pieces: plain text and placeholders \<^verbatim>\<open>{{name}}\<close>.
  \<open>substitutions\<close> is the table of the twenty-one replacements in the order of the
  handler, and \<open>expansion\<close> the text that stands for a piece in the comment.
\<close>

datatype piece = Plain string | Hole string

definition placeholder :: "string \<Rightarrow> string" where
  "placeholder n = ''{{'' @ n @ ''}}''"

fun render :: "piece list \<Rightarrow> string" where
  "render [] = []"
| "render (Plain t # ps) = t @ render ps"
| "render (Hole n # ps) = placeholder n @ render ps"

definition substitutions :: "affiliate_program \<Rightarrow> (string \<times> string) list" where
  "substitutions program =
    [(''program'', name program),
     (''link'', link program),
     (''promo_code'', promo_code_or_empty program),
     (''benefit'',
        ''it has specialized templates for blog posts, articles, and social media content''),
     (''feature'', ''the Boss Mode plan''),
     (''advantage'', ''write long-form content with AI continuing your thoughts''),
     (''reason'', ''of its versatility and user-friendly interface''),
     (''use_case'', ''blog posts and social media content''),
     (''use_case_1'', ''Blog post outlines''),
     (''use_case_2'', ''Full blog articles''),
     (''use_case_3'', ''Social media captions''),
     (''limitation'', ''the depth of long-form content generation''),
     (''drawback'', ''requires more editing''),
     (''improvement'', ''increased by 200%''),
     (''advantage_1'', ''Specialized templates for your exact content needs''),
     (''advantage_2'', ''High-quality output requiring minimal editing''),
     (''advantage_3'', ''Excellent customer support and regular updates''),
     (''plan'', ''Creator''),
     (''price'', ''$49''),
     (''result'', ''have seen a 70% reduction in content creation time''),
     (''discount'', ''20% off your first month'')]"

definition placeholder_names :: "string list" where
  "placeholder_names =
    [''program'', ''link'', ''promo_code'', ''benefit'', ''feature'', ''advantage'', ''reason'',
     ''use_case'', ''use_case_1'', ''use_case_2'', ''use_case_3'', ''limitation'', ''drawback'',
     ''improvement'', ''advantage_1'', ''advantage_2'', ''advantage_3'', ''plan'', ''price'',
     ''result'', ''discount'']"

fun expansion :: "affiliate_program \<Rightarrow> piece \<Rightarrow> string" where
  "expansion program (Plain t) = t"
| "expansion program (Hole n) =
    (case map_of (substitutions program) n of Some v \<Rightarrow> v | None \<Rightarrow> placeholder n)"

fun piece_ok :: "piece \<Rightarrow> bool" where
  "piece_ok (Plain t) = (CHR ''{'' \<notin> set t)"
| "piece_ok (Hole n) = (n \<in> set placeholder_names)"

definition template_ok :: "piece list \<Rightarrow> bool" where
  "template_ok ps = list_all piece_ok ps"

definition inert :: "string \<Rightarrow> bool" where
  "inert v = (CHR ''{'' \<notin> set v \<and> CHR ''$'' \<notin> set v)"

definition program_ok :: "affiliate_program \<Rightarrow> bool" where
  "program_ok program =
    (inert (name program) \<and> inert (link program) \<and> inert (promo_code_or_empty program))"

text \<open>
  One replacement seen on the pieces; the shape of names that cannot be confused with
  braces; a replacement text that \<^verbatim>\<open>GetSubstitution\<close> copies unchanged.
\<close>

fun fill :: "string \<Rightarrow> string \<Rightarrow> piece \<Rightarrow> piece" where
  "fill n v (Plain t) = Plain t"
| "fill n v (Hole m) = (if m = n then Plain v else Hole m)"

fun piece_wf :: "piece \<Rightarrow> bool" where
  "piece_wf (Plain t) = (CHR ''{'' \<notin> set t)"
| "piece_wf (Hole n) = (CHR ''{'' \<notin> set n \<and> CHR ''}'' \<notin> set n)"

definition literal :: "string \<Rightarrow> bool" where
  "literal v = (\<forall>m pre post. getSubstitution m pre post v = v)"

definition fill_step :: "string \<Rightarrow> string \<times> string \<Rightarrow> string" where
  "fill_step comment entry = replaceAll comment (placeholder (fst entry)) (snd entry)"

fun fill_all :: "(string \<times> string) list \<Rightarrow> piece \<Rightarrow> piece" where
  "fill_all tab (Plain t) = Plain t"
| "fill_all tab (Hole m) = (case map_of tab m of Some v \<Rightarrow> Plain v | None \<Rightarrow> Hole m)"

text \<open>Storage for concrete runs: one thread, one program without promo code, one template.\<close>

definition one_thread :: "rat \<Rightarrow> exn + unit option" where
  "one_thread i = Inr (if i = 1 then Some () else None)"

definition one_program :: "rat \<Rightarrow> exn + affiliate_program option" where
  "one_program i =
    Inr (if i = 1 then Some \<lparr>name = ''Jasper'', link = ''https://jasper.ai'', promoCode = None\<rparr>
         else None)"

definition one_template :: "rat \<Rightarrow> exn + comment_template option" where
  "one_template i =
    Inr (if i = 1 then Some \<lparr>template = ''{{pro{{promo_code}}gram}}''\<rparr> else None)"

section \<open>GET /api/threads and GET /api/opportunities\<close>

text \<open>
  A JavaScript number as far as the listing handlers meet one: \<^verbatim>\<open>NaN\<close> or an integer
  (the rounding of integers beyond \<open>2^53\<close> is left out).
\<close>

datatype jsnum = NaN | Num int

text \<open>
  \<^verbatim>\<open>parseInt(string)\<close> without a radix: leading white space is skipped (the ASCII white
  space characters here), a sign is read, \<^verbatim>\<open>0x\<close> or \<^verbatim>\<open>0X\<close> selects radix 16, the longest
  run of digits is read, and no digit at all gives \<^verbatim>\<open>NaN\<close>.
\<close>

definition white_space :: "char \<Rightarrow> bool" where
  "white_space c =
    (c = CHR '' '' \<or> c = CHR 0x09 \<or> c = CHR 0x0A \<or> c = CHR 0x0B \<or> c = CHR 0x0C \<or> c = CHR 0x0D)"

definition decimal_digit :: "char \<Rightarrow> nat option" where
  "decimal_digit =
    map_of [(CHR ''0'', 0), (CHR ''1'', 1), (CHR ''2'', 2), (CHR ''3'', 3), (CHR ''4'', 4),
            (CHR ''5'', 5), (CHR ''6'', 6), (CHR ''7'', 7), (CHR ''8'', 8), (CHR ''9'', 9)]"

definition hex_digit :: "char \<Rightarrow> nat option" where
  "hex_digit c =
    (case map_of [(CHR ''a'', 10), (CHR ''b'', 11), (CHR ''c'', 12), (CHR ''d'', 13),
                  (CHR ''e'', 14), (CHR ''f'', 15), (CHR ''A'', 10), (CHR ''B'', 11),
                  (CHR ''C'', 12), (CHR ''D'', 13), (CHR ''E'', 14), (CHR ''F'', 15)] c of
       Some v \<Rightarrow> Some v
     | None \<Rightarrow> decimal_digit c)"

fun leading_digits :: "(char \<Rightarrow> nat option) \<Rightarrow> string \<Rightarrow> nat list" where
  "leading_digits digit [] = []"
| "leading_digits digit (c # cs) =
    (case digit c of None \<Rightarrow> [] | Some v \<Rightarrow> v # leading_digits digit cs)"

definition digits_value :: "nat \<Rightarrow> nat list \<Rightarrow> nat" where
  "digits_value radix ds = foldl (\<lambda>acc d. acc * radix + d) 0 ds"

definition parseInt :: "string \<Rightarrow> jsnum" where
  "parseInt input =
    (let s = dropWhile white_space input;
         negative = (s \<noteq> [] \<and> hd s = CHR ''-'');
         s = (if s \<noteq> [] \<and> (hd s = CHR ''+'' \<or> hd s = CHR ''-'') then tl s else s);
         hex = (prefix ''0x'' s \<or> prefix ''0X'' s);
         s = (if hex then drop 2 s else s);
         ds = leading_digits (if hex then hex_digit else decimal_digit) s
     in if ds = [] then NaN
        else Num ((if negative then - 1 else 1) * int (digits_value (if hex then 16 else 10) ds)))"

text \<open>
  A query parameter after the destructuring with a default
  (\<^verbatim>\<open>const { limit = 10, offset = 0 } = req.query\<close>): the number of the default when the
  parameter is missing, its string otherwise.  \<^verbatim>\<open>parseInt\<close> of the default number reads
  back that number.
\<close>

datatype qval = QNumber int | QString string

definition with_default :: "int \<Rightarrow> string option \<Rightarrow> qval" where
  "with_default d v = (case v of None \<Rightarrow> QNumber d | Some s \<Rightarrow> QString s)"

fun truthy :: "qval \<Rightarrow> bool" where
  "truthy (QNumber n) = (n \<noteq> 0)"
| "truthy (QString s) = (s \<noteq> [])"

fun parseInt_of :: "qval \<Rightarrow> jsnum" where
  "parseInt_of (QNumber n) = Num n"
| "parseInt_of (QString s) = parseInt s"

text \<open>\<^verbatim>\<open>v ? parseInt(v) : undefined\<close>\<close>

definition parsed_if_truthy :: "qval \<Rightarrow> jsnum option" where
  "parsed_if_truthy v = (if truthy v then Some (parseInt_of v) else None)"

text \<open>\<^verbatim>\<open>v ? parseInt(v as string) : undefined\<close> for a parameter without default.\<close>

definition numeric_param :: "string option \<Rightarrow> jsnum option" where
  "numeric_param v =
    (case v of None \<Rightarrow> None | Some s \<Rightarrow> if s = [] then None else Some (parseInt s))"

text \<open>\<^verbatim>\<open>serpMatch ? (serpMatch === 'true') : undefined\<close>\<close>

definition boolean_param :: "string option \<Rightarrow> bool option" where
  "boolean_param v =
    (case v of None \<Rightarrow> None | Some s \<Rightarrow> if s = [] then None else Some (s = ''true''))"

text \<open>\<^verbatim>\<open>(sortDirection as 'asc' | 'desc') || 'desc'\<close>\<close>

definition direction_or_desc :: "string option \<Rightarrow> string" where
  "direction_or_desc v = (case v of None \<Rightarrow> ''desc'' | Some s \<Rightarrow> if s = [] then ''desc'' else s)"

text \<open>
  The argument of \<^verbatim>\<open>storage.getThreads\<close> and \<^verbatim>\<open>storage.getOpportunities\<close>: the
  predicates of the collection, and the paging and sorting options; \<open>None\<close> is
  \<^verbatim>\<open>undefined\<close>.
\<close>

record 'p list_options =
  predicates :: 'p
  limit :: "jsnum option"
  offset :: "jsnum option"
  sortBy :: "string option"
  sortDirection :: "string option"

record thread_predicates =
  subreddit :: "string option"
  intentType :: "string option"
  serpRank :: "string option"
  affiliateProgram :: "string option"
  search :: "string option"

record opportunity_predicates =
  threadId_eq :: "jsnum option"
  intent_eq :: "string option"
  score_eq :: "jsnum option"
  scoreMin :: "jsnum option"
  scoreMax :: "jsnum option"
  serpMatch_eq :: "bool option"
  action_eq :: "string option"

text \<open>The answer of a listing: the page, the total, and the limit and offset read back.\<close>

record 'a listing =
  items :: "'a list"
  total :: nat
  reported_limit :: jsnum
  reported_offset :: jsnum

definition thread_predicates_of :: "(string \<Rightarrow> string option) \<Rightarrow> thread_predicates" where
  "thread_predicates_of q =
    \<lparr>subreddit = q ''subreddit'', intentType = q ''intentType'', serpRank = q ''serpRank'',
     affiliateProgram = q ''affiliateProgram'', search = q ''search''\<rparr>"

definition get_threads_route ::
  "(thread_predicates list_options \<Rightarrow> exn + 'a list) \<Rightarrow> (string \<Rightarrow> string option) \<Rightarrow>
   'a listing response"
where
  "get_threads_route getThreads q =
    (let the_limit = with_default 10 (q ''limit'');
         the_offset = with_default 0 (q ''offset'')
     in case getThreads
          \<lparr>predicates = thread_predicates_of q,
           limit = parsed_if_truthy the_limit,
           offset = parsed_if_truthy the_offset,
           sortBy = q ''sortBy'',
           sortDirection = Some (direction_or_desc (q ''sortDirection''))\<rparr> of
          Inl e \<Rightarrow> Failure 500 ''Failed to fetch threads''
        | Inr threads \<Rightarrow>
           (case getThreads
              \<lparr>predicates = thread_predicates_of q,
               limit = None, offset = None, sortBy = None, sortDirection = None\<rparr> of
              Inl e \<Rightarrow> Failure 500 ''Failed to fetch threads''
            | Inr unpaged \<Rightarrow>
                Reply 200
                  \<lparr>items = threads, total = length unpaged,
                   reported_limit = parseInt_of the_limit, reported_offset = parseInt_of the_offset\<rparr>))"

definition opportunity_predicates_of :: "(string \<Rightarrow> string option) \<Rightarrow> opportunity_predicates" where
  "opportunity_predicates_of q =
    \<lparr>threadId_eq = numeric_param (q ''threadId''),
     intent_eq = q ''intent'',
     score_eq = numeric_param (q ''score''),
     scoreMin = numeric_param (q ''scoreMin''),
     scoreMax = numeric_param (q ''scoreMax''),
     serpMatch_eq = boolean_param (q ''serpMatch''),
     action_eq = q ''action''\<rparr>"

definition get_opportunities_route ::
  "(opportunity_predicates list_options \<Rightarrow> exn + 'a list) \<Rightarrow> (string \<Rightarrow> string option) \<Rightarrow>
   'a listing response"
where
  "get_opportunities_route getOpportunities q =
    (let the_limit = with_default 10 (q ''limit'');
         the_offset = with_default 0 (q ''offset'')
     in case getOpportunities
          \<lparr>predicates = opportunity_predicates_of q,
           limit = parsed_if_truthy the_limit,
           offset = parsed_if_truthy the_offset,
           sortBy = q ''sortBy'',
           sortDirection = Some (direction_or_desc (q ''sortDirection''))\<rparr> of
          Inl e \<Rightarrow> Failure 500 ''Failed to fetch opportunities''
        | Inr opportunities \<Rightarrow>
           (case getOpportunities
              \<lparr>predicates = opportunity_predicates_of q,
               limit = None, offset = None, sortBy = None, sortDirection = None\<rparr> of
              Inl e \<Rightarrow> Failure 500 ''Failed to fetch opportunities''
            | Inr unpaged \<Rightarrow>
                Reply 200
                  \<lparr>items = opportunities, total = length unpaged,
                   reported_limit = parseInt_of the_limit, reported_offset = parseInt_of the_offset\<rparr>))"

section \<open>The storage behind the listings\<close>

text \<open>
  Modelled from the spec: \<^verbatim>\<open>storage.getThreads\<close> and \<^verbatim>\<open>storage.getOpportunities\<close>
  (server/storage.ts is not among the sources).  Section 4.5: the predicates are
  conjunctive, the result is sorted by a named field, ascending or descending
  (descending when unspecified), ties broken by identifier, and then paged by limit and
  offset.  The handlers obtain the total from a call without limit and offset, so an
  undefined limit means no limit, and an undefined offset means none skipped.  Section 7
  gives a validation error for malformed input: a limit or offset that is \<^verbatim>\<open>NaN\<close> or
  negative counts as such.  The table of the sortable fields is a parameter
  (\<open>sort_value\<close>: the value of the field named by \<^verbatim>\<open>sortBy\<close>).
\<close>

definition malformed :: "jsnum option \<Rightarrow> bool" where
  "malformed v = (case v of None \<Rightarrow> False | Some NaN \<Rightarrow> True | Some (Num n) \<Rightarrow> n < 0)"

definition ordered :: "string option \<Rightarrow> ('a \<Rightarrow> int) \<Rightarrow> ('a \<Rightarrow> nat) \<Rightarrow> 'a list \<Rightarrow> 'a list" where
  "ordered direction field_value identifier xs =
    sort_key (\<lambda>x. (if direction = Some ''asc'' then field_value x else - field_value x, identifier x)) xs"

definition window :: "jsnum option \<Rightarrow> jsnum option \<Rightarrow> 'a list \<Rightarrow> 'a list" where
  "window the_limit the_offset xs =
    (let rest = (case the_offset of Some (Num k) \<Rightarrow> drop (nat k) xs | _ \<Rightarrow> xs)
     in case the_limit of Some (Num l) \<Rightarrow> take (nat l) rest | _ \<Rightarrow> rest)"

definition list_query ::
  "('p \<Rightarrow> 'a \<Rightarrow> bool) \<Rightarrow> (string option \<Rightarrow> 'a \<Rightarrow> int) \<Rightarrow> ('a \<Rightarrow> nat) \<Rightarrow> 'a list \<Rightarrow>
   'p list_options \<Rightarrow> exn + 'a list"
where
  "list_query matches sort_value identifier collection opts =
    (if malformed (limit opts) \<or> malformed (offset opts) then Inl (Thrown ''ValidationError'')
     else Inr (window (limit opts) (offset opts)
            (ordered (sortDirection opts) (sort_value (sortBy opts)) identifier
               (filter (matches (predicates opts)) collection))))"

text \<open>
  Modelled from the spec: the opportunity of section 3 and the predicates of section 4.5
  on it (thread reference, intent, exact score, score range, SERP match, action).  An
  item must satisfy every supplied predicate; no score or thread reference satisfies a
  comparison with \<^verbatim>\<open>NaN\<close>.
\<close>

datatype intent = DISCOVERY | COMPARISON | QUESTION | REVIEW | OTHER | UNKNOWN

datatype action = COMMENT | SKIP | WATCH

fun intent_name :: "intent \<Rightarrow> string" where
  "intent_name DISCOVERY = ''DISCOVERY''"
| "intent_name COMPARISON = ''COMPARISON''"
| "intent_name QUESTION = ''QUESTION''"
| "intent_name REVIEW = ''REVIEW''"
| "intent_name OTHER = ''OTHER''"
| "intent_name UNKNOWN = ''UNKNOWN''"

fun action_name :: "action \<Rightarrow> string" where
  "action_name COMMENT = ''COMMENT''"
| "action_name SKIP = ''SKIP''"
| "action_name WATCH = ''WATCH''"

record opportunity =
  ident :: nat
  thread_ref :: nat
  score :: int
  intent :: intent
  matched_programs :: "nat list"
  serp_match :: bool
  action :: action
  computed_at :: nat

definition opportunity_matches :: "opportunity_predicates \<Rightarrow> opportunity \<Rightarrow> bool" where
  "opportunity_matches p opp =
    ((case threadId_eq p of
        None \<Rightarrow> True | Some NaN \<Rightarrow> False | Some (Num n) \<Rightarrow> int (thread_ref opp) = n) \<and>
     (case intent_eq p of None \<Rightarrow> True | Some s \<Rightarrow> intent_name (intent opp) = s) \<and>
     (case score_eq p of None \<Rightarrow> True | Some NaN \<Rightarrow> False | Some (Num n) \<Rightarrow> score opp = n) \<and>
     (case scoreMin p of None \<Rightarrow> True | Some NaN \<Rightarrow> False | Some (Num n) \<Rightarrow> n \<le> score opp) \<and>
     (case scoreMax p of None \<Rightarrow> True | Some NaN \<Rightarrow> False | Some (Num n) \<Rightarrow> score opp \<le> n) \<and>
     (case serpMatch_eq p of None \<Rightarrow> True | Some b \<Rightarrow> serp_match opp = b) \<and>
     (case action_eq p of None \<Rightarrow> True | Some s \<Rightarrow> action_name (action opp) = s))"

definition getOpportunities ::
  "(string option \<Rightarrow> opportunity \<Rightarrow> int) \<Rightarrow> opportunity list \<Rightarrow>
   opportunity_predicates list_options \<Rightarrow> exn + opportunity list"
where
  "getOpportunities sort_value collection opts =
    list_query opportunity_matches sort_value ident collection opts"

text \<open>
  Modelled from the spec: the thread listing.  The thread record and the meaning of its
  five predicates are parameters.
\<close>

definition getThreads ::
  "(thread_predicates \<Rightarrow> 'a \<Rightarrow> bool) \<Rightarrow> (string option \<Rightarrow> 'a \<Rightarrow> int) \<Rightarrow> ('a \<Rightarrow> nat) \<Rightarrow> 'a list \<Rightarrow>
   thread_predicates list_options \<Rightarrow> exn + 'a list"
where
  "getThreads matches sort_value identifier collection opts =
    list_query matches sort_value identifier collection opts"

text \<open>The items at the positions \<open>offset + 1\<close> to \<open>offset + limit\<close> of a list, as far as it goes.\<close>

definition positions :: "nat \<Rightarrow> nat \<Rightarrow> 'a list \<Rightarrow> 'a list" where
  "positions the_offset the_limit xs = map (nth xs) [the_offset ..< min (the_offset + the_limit) (length xs)]"

text \<open>Parameters for concrete runs: a thread is its number, every thread matches.\<close>

definition every_thread :: "thread_predicates \<Rightarrow> nat \<Rightarrow> bool" where
  "every_thread p t = True"

definition thread_number :: "string option \<Rightarrow> nat \<Rightarrow> int" where
  "thread_number field t = int t"

definition by_score :: "string option \<Rightarrow> opportunity \<Rightarrow> int" where
  "by_score field opp = score opp"

text \<open>Data for concrete runs: five opportunities, and three query strings.\<close>

definition scored :: "nat \<Rightarrow> int \<Rightarrow> opportunity" where
  "scored i s =
    \<lparr>ident = i, thread_ref = i, score = s, intent = REVIEW, matched_programs = [1],
     serp_match = False, action = WATCH, computed_at = 0\<rparr>"

definition five_opportunities :: "opportunity list" where
  "five_opportunities = [scored 1 49, scored 2 50, scored 3 65, scored 4 80, scored 5 81]"

definition third_page :: "string \<Rightarrow> string option" where
  "third_page = map_of [(''limit'', ''5''), (''offset'', ''10'')]"

definition score_range :: "string \<Rightarrow> string option" where
  "score_range = map_of [(''scoreMin'', ''50''), (''scoreMax'', ''80'')]"

definition no_parameters :: "string \<Rightarrow> string option" where
  "no_parameters = map_of []"

section \<open>The crawl scheduler\<close>

text \<open>
  Modelled from the spec: the scheduler object \<^verbatim>\<open>crawlerScheduler\<close> (server/scheduler.ts
  is not among the sources; routes.ts calls \<^verbatim>\<open>startCrawlerJob\<close>, \<^verbatim>\<open>stopCrawlerJob\<close> and
  \<^verbatim>\<open>runCrawlerNow\<close> on it).  Section 3: the state holds the handle of the pending periodic
  trigger and the flag of a run in flight; its mode is STOPPED, SCHEDULED or RUNNING.
  Section 4.1: \<^verbatim>\<open>start\<close> arms the timer from STOPPED and is a no-op answering false
  otherwise; \<^verbatim>\<open>stop\<close> cancels the timer and answers true from SCHEDULED, answers false
  otherwise, and leaves a run in flight alone (the timer is cancelled, so that the mode
  is STOPPED once the run has finished); \<^verbatim>\<open>runNow\<close> starts one pass unless one is in
  flight, in which case it is rejected; a timer tick during a run is dropped.  The
  number of Orchestrator passes under way is kept in \<open>passes\<close> so that single flight can
  be stated.
\<close>

datatype mode = STOPPED | SCHEDULED | RUNNING

record scheduler =
  timer_armed :: bool
  in_flight :: bool
  passes :: nat

definition mode_of :: "scheduler \<Rightarrow> mode" where
  "mode_of s = (if in_flight s then RUNNING else if timer_armed s then SCHEDULED else STOPPED)"

definition initial_scheduler :: scheduler where
  "initial_scheduler = \<lparr>timer_armed = False, in_flight = False, passes = 0\<rparr>"

definition startCrawlerJob :: "scheduler \<Rightarrow> bool \<times> scheduler" where
  "startCrawlerJob s =
    (if mode_of s = STOPPED then (True, s\<lparr>timer_armed := True\<rparr>) else (False, s))"

definition stopCrawlerJob :: "scheduler \<Rightarrow> bool \<times> scheduler" where
  "stopCrawlerJob s =
    (if mode_of s = SCHEDULED then (True, s\<lparr>timer_armed := False\<rparr>)
     else (False, s\<lparr>timer_armed := False\<rparr>))"

text \<open>The beginning and the end of a pass of the Orchestrator.\<close>

definition begin_pass :: "scheduler \<Rightarrow> scheduler" where
  "begin_pass s = s\<lparr>in_flight := True, passes := Suc (passes s)\<rparr>"

definition end_pass :: "scheduler \<Rightarrow> scheduler" where
  "end_pass s = (if in_flight s then s\<lparr>in_flight := False, passes := passes s - 1\<rparr> else s)"

text \<open>\<^verbatim>\<open>runNow\<close> up to the start of its pass: rejected while a pass is in flight.\<close>

definition runCrawlerNow :: "scheduler \<Rightarrow> (exn + unit) \<times> scheduler" where
  "runCrawlerNow s =
    (if in_flight s then (Inl (Thrown ''AlreadyRunning''), s) else (Inr (), begin_pass s))"

definition timer_fire :: "scheduler \<Rightarrow> scheduler" where
  "timer_fire s = (if timer_armed s \<and> \<not> in_flight s then begin_pass s else s)"

text \<open>
  The calls and ticks reach the scheduler one at a time (section 5), in any order; the
  end of a pass is an event of its own, since other requests are served while a pass
  awaits the crawler.
\<close>

datatype event = Start | Stop | RunNow | TimerFire | PassFinished

fun step :: "scheduler \<Rightarrow> event \<Rightarrow> scheduler" where
  "step s Start = snd (startCrawlerJob s)"
| "step s Stop = snd (stopCrawlerJob s)"
| "step s RunNow = snd (runCrawlerNow s)"
| "step s TimerFire = timer_fire s"
| "step s PassFinished = end_pass s"

definition run_events :: "event list \<Rightarrow> scheduler" where
  "run_events es = foldl step initial_scheduler es"

text \<open>
  The handlers of routes.ts on the scheduler: \<^verbatim>\<open>if (result) res.json(...) else
  res.status(400).json(...)\<close>, and status 500 when the call throws.
\<close>

definition scheduler_start_route :: "('st \<Rightarrow> (exn + bool) \<times> 'st) \<Rightarrow> 'st \<Rightarrow> string response \<times> 'st" where
  "scheduler_start_route start st =
    (case start st of
       (Inl e, st') \<Rightarrow> (Failure 500 ''Failed to start crawler job'', st')
     | (Inr result, st') \<Rightarrow>
         (if result then Reply 200 ''Crawler job scheduled successfully''
          else Failure 400 ''Crawler job is already running'', st'))"

definition scheduler_stop_route :: "('st \<Rightarrow> (exn + bool) \<times> 'st) \<Rightarrow> 'st \<Rightarrow> string response \<times> 'st" where
  "scheduler_stop_route stop st =
    (case stop st of
       (Inl e, st') \<Rightarrow> (Failure 500 ''Failed to stop crawler job'', st')
     | (Inr result, st') \<Rightarrow>
         (if result then Reply 200 ''Crawler job stopped successfully''
          else Failure 400 ''No crawler job is running'', st'))"

definition scheduler_run_now_route ::
  "('st \<Rightarrow> (exn + unit) \<times> 'st) \<Rightarrow> 'st \<Rightarrow> string response \<times> 'st" where
  "scheduler_run_now_route runNow st =
    (case runNow st of
       (Inl e, st') \<Rightarrow> (Failure 500 ''Failed to trigger crawler job'', st')
     | (Inr u, st') \<Rightarrow> (Reply 200 ''Crawler job triggered successfully'', st'))"

text \<open>A call that returns its result without throwing.\<close>

definition returned :: "('st \<Rightarrow> 'r \<times> 'st) \<Rightarrow> 'st \<Rightarrow> (exn + 'r) \<times> 'st" where
  "returned call st = (Inr (fst (call st)), snd (call st))"

text \<open>Single flight: the passes under way are one during a run in flight and none otherwise.\<close>

definition single_flight :: "scheduler \<Rightarrow> bool" where
  "single_flight s = (passes s = (if in_flight s then 1 else 0))"

section \<open>The opportunity scoring engine\<close>

text \<open>
  Modelled from the spec: \<^verbatim>\<open>storage.refreshOpportunities\<close> (server/storage.ts is not among
  the sources; routes.ts answers its count).  Section 3 gives the rows, section 4.4 the
  refresh: for every stored thread the matched programs (a keyword of the program occurs
  in the title or the body, compared without case), the SERP match (a result of the
  thread with the ranked flag), the score (a weighted combination of the number of
  matched programs, a bonus for the intents COMPARISON and REVIEW, a bonus for a SERP
  match and a contribution of the engagement), the action (SKIP without a matched
  program, COMMENT with a score above the threshold, WATCH otherwise), and the upsert of
  the opportunity keyed by the thread with a fresh timestamp.  The weights, the
  threshold and the normalisation of the engagement are the configuration.
\<close>

record thread =
  thread_id :: nat
  thread_source :: string
  thread_title :: string
  thread_body :: string
  upvotes :: nat
  thread_intent :: intent
  crawled_at :: nat

record tracked_program = affiliate_program +
  program_id :: nat
  match_keywords :: "string list"

record serp_result =
  serp_id :: nat
  serp_thread :: nat
  serp_query :: string
  rank_position :: "nat option"
  ranked :: bool
  checked_at :: nat

record scoring =
  program_weight :: int
  intent_bonus :: int
  serp_bonus :: int
  engagement :: "nat \<Rightarrow> int"
  comment_threshold :: int

record store =
  stored_threads :: "thread list"
  stored_programs :: "tracked_program list"
  stored_serp_results :: "serp_result list"
  stored_opportunities :: "opportunity list"
  next_opportunity_id :: nat

definition lower_case :: "char \<Rightarrow> char" where
  "lower_case c =
    (if 65 \<le> (of_char c :: nat) \<and> (of_char c :: nat) \<le> 90 then char_of (of_char c + 32 :: nat)
     else c)"

definition mentions :: "string \<Rightarrow> string \<Rightarrow> bool" where
  "mentions text keyword = sublist (map lower_case keyword) (map lower_case text)"

definition program_matches :: "thread \<Rightarrow> tracked_program \<Rightarrow> bool" where
  "program_matches t p =
    list_ex (\<lambda>k. mentions (thread_title t) k \<or> mentions (thread_body t) k) (match_keywords p)"

definition matched_program_ids :: "tracked_program list \<Rightarrow> thread \<Rightarrow> nat list" where
  "matched_program_ids ps t = remdups (map program_id (filter (program_matches t) ps))"

definition serp_matched :: "serp_result list \<Rightarrow> thread \<Rightarrow> bool" where
  "serp_matched rs t = list_ex (\<lambda>r. serp_thread r = thread_id t \<and> ranked r) rs"

definition score_of :: "scoring \<Rightarrow> nat list \<Rightarrow> bool \<Rightarrow> thread \<Rightarrow> int" where
  "score_of cfg matched serp t =
    program_weight cfg * int (length matched) +
    (if thread_intent t = COMPARISON \<or> thread_intent t = REVIEW then intent_bonus cfg else 0) +
    (if serp then serp_bonus cfg else 0) +
    engagement cfg (upvotes t)"

definition action_of :: "scoring \<Rightarrow> nat list \<Rightarrow> int \<Rightarrow> action" where
  "action_of cfg matched s =
    (if matched = [] then SKIP else if comment_threshold cfg < s then COMMENT else WATCH)"

text \<open>The opportunity computed for a thread; its identifier is given by the upsert.\<close>

definition computed_opportunity :: "scoring \<Rightarrow> store \<Rightarrow> nat \<Rightarrow> thread \<Rightarrow> opportunity" where
  "computed_opportunity cfg st now t =
    (let matched = matched_program_ids (stored_programs st) t;
         serp = serp_matched (stored_serp_results st) t;
         s = score_of cfg matched serp t
     in \<lparr>ident = 0, thread_ref = thread_id t, score = s, intent = thread_intent t,
         matched_programs = matched, serp_match = serp, action = action_of cfg matched s,
         computed_at = now\<rparr>)"

text \<open>
  The upsert keyed by the thread: the row of the thread is overwritten and keeps its
  identifier; without such a row a new one is appended under the fresh identifier.
\<close>

fun overwrite :: "opportunity \<Rightarrow> opportunity list \<Rightarrow> opportunity list" where
  "overwrite new [] = []"
| "overwrite new (old # rows) =
    (if thread_ref old = thread_ref new then new\<lparr>ident := ident old\<rparr> # rows
     else old # overwrite new rows)"

fun upsert_row :: "opportunity list \<times> nat \<Rightarrow> opportunity \<Rightarrow> opportunity list \<times> nat" where
  "upsert_row (rows, fresh) new =
    (if thread_ref new \<in> set (map thread_ref rows) then (overwrite new rows, fresh)
     else (rows @ [new\<lparr>ident := fresh\<rparr>], Suc fresh))"

definition upsertOpportunity :: "opportunity \<Rightarrow> store \<Rightarrow> store" where
  "upsertOpportunity new st =
    (let (rows, fresh) = upsert_row (stored_opportunities st, next_opportunity_id st) new
     in st\<lparr>stored_opportunities := rows, next_opportunity_id := fresh\<rparr>)"

text \<open>The refresh: one upsert per stored thread, counted.\<close>

definition refresh_thread :: "scoring \<Rightarrow> store \<Rightarrow> nat \<Rightarrow> nat \<times> store \<Rightarrow> thread \<Rightarrow> nat \<times> store" where
  "refresh_thread cfg st0 now acc t =
    (Suc (fst acc), upsertOpportunity (computed_opportunity cfg st0 now t) (snd acc))"

definition refreshOpportunities :: "scoring \<Rightarrow> nat \<Rightarrow> store \<Rightarrow> nat \<times> store" where
  "refreshOpportunities cfg now st =
    foldl (refresh_thread cfg st now) (0, st) (stored_threads st)"

text \<open>\<^verbatim>\<open>const count = await storage.refreshOpportunities(); res.json({ count, message })\<close>\<close>

definition refresh_opportunities_route ::
  "('st \<Rightarrow> (exn + nat) \<times> 'st) \<Rightarrow> 'st \<Rightarrow> nat response \<times> 'st" where
  "refresh_opportunities_route refresh st =
    (case refresh st of
       (Inl e, st') \<Rightarrow> (Failure 500 ''Failed to refresh opportunities'', st')
     | (Inr written, st') \<Rightarrow> (Reply 200 written, st'))"

text \<open>A row without its timestamp.\<close>

definition timeless :: "opportunity \<Rightarrow> opportunity" where
  "timeless opp = opp\<lparr>computed_at := 0\<rparr>"

definition demo_scoring :: scoring where
  "demo_scoring =
    \<lparr>program_weight = 20, intent_bonus = 15, serp_bonus = 25, engagement = int,
     comment_threshold = 50\<rparr>"

definition demo_store :: store where
  "demo_store =
    \<lparr>stored_threads =
       [\<lparr>thread_id = 1, thread_source = ''SEO'', thread_title = ''Is Jasper worth it?'',
         thread_body = ''Looking for reviews'', upvotes = 12, thread_intent = REVIEW,
         crawled_at = 3\<rparr>,
        \<lparr>thread_id = 2, thread_source = ''SEO'', thread_title = ''Weekly chat'',
         thread_body = ''Anything goes'', upvotes = 4, thread_intent = OTHER, crawled_at = 3\<rparr>],
     stored_programs =
       [\<lparr>name = ''Jasper'', link = ''https://jasper.ai'', promoCode = None, program_id = 7,
         match_keywords = [''jasper'']\<rparr>],
     stored_serp_results =
       [\<lparr>serp_id = 1, serp_thread = 1, serp_query = ''jasper'', rank_position = Some 3, ranked = True,
         checked_at = 4\<rparr>],
     stored_opportunities = [],
     next_opportunity_id = 1\<rparr>"

text \<open>The table of the opportunities with its identifier counter, and without timestamps.\<close>

definition timeless_table :: "opportunity list \<times> nat \<Rightarrow> opportunity list \<times> nat" where
  "timeless_table X = (map timeless (fst X), snd X)"

definition table_of :: "store \<Rightarrow> opportunity list \<times> nat" where
  "table_of st = (stored_opportunities st, next_opportunity_id st)"

section \<open>The run-crawler operation\<close>

lemma z_strings_map_JStr: "z_strings (map JStr ss) = Inr ss"
  by (induction ss) (simp_all add: z_string_def)

lemma run_crawler_schema_cases:
  "run_crawler_schema (JObj props) =
    (case property props ''subreddits'' of
       None \<Rightarrow> Inr None
     | Some (JArr vs) \<Rightarrow> (case z_strings vs of Inl e \<Rightarrow> Inl e | Inr ss \<Rightarrow> Inr (Some ss))
     | Some _ \<Rightarrow> Inl ZodError)"
  by (simp add: run_crawler_schema_def z_object_def z_optional_def z_array_string_def
      split: option.splits json.splits)

lemma z_strings_error: "z_strings vs = Inl e \<Longrightarrow> e = ZodError"
  by (induction vs arbitrary: e) (auto simp: z_string_def split: json.splits sum.splits)

lemma run_crawler_schema_error: "run_crawler_schema body = Inl e \<Longrightarrow> e = ZodError"
  by (cases body)
    (auto simp: run_crawler_schema_def z_object_def z_optional_def z_array_string_def
      split: option.splits json.splits sum.splits dest: z_strings_error)

text \<open>
  C9.  With the \<^verbatim>\<open>subreddits\<close> parameter omitted (the schema yields no list) or equal to
  the empty list, the crawler is run on the full standard list; a non-empty list is
  passed to the crawler as given.  The answer is built from what the crawler returns for
  that list.
\<close>

theorem run_crawler_list_fallback:
  "run_crawler_schema body = Inr subreddits \<Longrightarrow>
   run_crawler_route getAll runCrawler body st =
     run_crawler_reply
       (runCrawler (if subreddits = None \<or> subreddits = Some [] then getAll
                    else the subreddits) st)"
  by (cases subreddits) (auto simp: run_crawler_route_def subredditList_def)

theorem run_crawler_list_fallback_witness:
  "run_crawler_schema (JObj []) = Inr None \<and>
   run_crawler_route [''SEO'', ''blogging''] logging_crawler (JObj []) [] =
     (Reply 200 2, [[''SEO'', ''blogging'']]) \<and>
   run_crawler_schema (JObj [(''subreddits'', JArr [])]) = Inr (Some []) \<and>
   run_crawler_route [''SEO'', ''blogging''] logging_crawler
       (JObj [(''subreddits'', JArr [])]) [] =
     (Reply 200 2, [[''SEO'', ''blogging'']]) \<and>
   run_crawler_schema (JObj [(''subreddits'', JArr [JStr ''juststart''])]) =
     Inr (Some [''juststart'']) \<and>
   run_crawler_route [''SEO'', ''blogging''] logging_crawler
       (JObj [(''subreddits'', JArr [JStr ''juststart''])]) [] =
     (Reply 200 1, [[''juststart'']])"
proof -
  have p1: "run_crawler_schema (JObj []) = Inr None"
    by (simp add: run_crawler_schema_cases property_def)
  have p2: "run_crawler_schema (JObj [(''subreddits'', JArr [])]) = Inr (Some [])"
    by (simp add: run_crawler_schema_cases property_def)
  have p3: "run_crawler_schema (JObj [(''subreddits'', JArr [JStr ''juststart''])]) =
      Inr (Some [''juststart''])"
    by (simp add: run_crawler_schema_cases property_def z_string_def)
  show ?thesis
    using run_crawler_list_fallback [OF p1, of "[''SEO'', ''blogging'']" logging_crawler "[]"]
      run_crawler_list_fallback [OF p2, of "[''SEO'', ''blogging'']" logging_crawler "[]"]
      run_crawler_list_fallback [OF p3, of "[''SEO'', ''blogging'']" logging_crawler "[]"]
      p1 p2 p3
    by (simp add: run_crawler_reply_def logging_crawler_def)
qed

text \<open>
  C2, as the code has it.  The claim that an empty source list is a validation error
  fails: the request below, with the empty list, is answered with status 200 once the
  crawler has run on the standard list.
\<close>

theorem run_crawler_empty_list_counterexample:
  "run_crawler_route [''SEO'', ''blogging''] logging_crawler
       (JObj [(''subreddits'', JArr [])]) [] =
     (Reply 200 2, [[''SEO'', ''blogging'']])"
  by (simp add: run_crawler_route_def run_crawler_schema_cases property_def
      subredditList_def run_crawler_reply_def logging_crawler_def)

text \<open>
  C2, amended.  An empty source list is accepted: the crawl is executed over the full
  standard list and the answer is the one built from that crawl.  The validation error
  (status 400, "Invalid request data") is the answer when the body does not fit the
  schema, and then the crawler is not run (its state is unchanged).
\<close>

theorem run_crawler_empty_list_accepted:
  "(property props ''subreddits'' = Some (JArr []) \<longrightarrow>
      run_crawler_route getAll runCrawler (JObj props) st =
        run_crawler_reply (runCrawler getAll st)) \<and>
   (run_crawler_schema body = Inl e \<longrightarrow>
      run_crawler_route getAll runCrawler body st =
        (Failure 400 ''Invalid request data'', st))"
proof (intro conjI impI)
  assume "property props ''subreddits'' = Some (JArr [])"
  then show "run_crawler_route getAll runCrawler (JObj props) st =
      run_crawler_reply (runCrawler getAll st)"
    by (simp add: run_crawler_route_def run_crawler_schema_cases subredditList_def)
next
  assume err: "run_crawler_schema body = Inl e"
  then have "e = ZodError" by (rule run_crawler_schema_error)
  with err show "run_crawler_route getAll runCrawler body st =
      (Failure 400 ''Invalid request data'', st)"
    by (simp add: run_crawler_route_def run_crawler_catch_def)
qed

theorem run_crawler_empty_list_accepted_witness:
  "property [(''subreddits'', JArr [])] ''subreddits'' = Some (JArr []) \<and>
   run_crawler_route [''SEO''] logging_crawler (JObj [(''subreddits'', JArr [])]) [] =
     (Reply 200 1, [[''SEO'']]) \<and>
   run_crawler_schema (JObj [(''subreddits'', JStr ''SEO'')]) = Inl ZodError \<and>
   run_crawler_route [''SEO''] logging_crawler (JObj [(''subreddits'', JStr ''SEO'')]) [] =
     (Failure 400 ''Invalid request data'', [])"
proof -
  have p: "property [(''subreddits'', JArr [])] ''subreddits'' = Some (JArr [])"
    by (simp add: property_def)
  have q: "run_crawler_schema (JObj [(''subreddits'', JStr ''SEO'')]) = Inl ZodError"
    by (simp add: run_crawler_schema_cases property_def)
  show ?thesis
    using run_crawler_empty_list_accepted
      [of "[(''subreddits'', JArr [])]" "[''SEO'']" logging_crawler "[]"
          "JObj [(''subreddits'', JStr ''SEO'')]" ZodError] p q
    by (simp add: run_crawler_reply_def logging_crawler_def)
qed

section \<open>Creating a SERP result\<close>

lemma serp_result_schema_position:
  "z_number (property props ''position'') = Inl e \<Longrightarrow>
   serp_result_schema (JObj props) = Inl ZodError"
  by (auto simp: serp_result_schema_def z_object_def z_number_def z_string_def z_boolean_def
      split: sum.splits option.splits json.splits)

text \<open>
  C3, as the code has it.  A request whose position is null is refused with status 400
  and nothing is stored, so a SERP result with an absent position is not created by this
  operation; and a position that is not a positive integer (here \<open>-3\<close>) is stored as
  given.
\<close>

theorem create_serp_result_counterexample:
  "create_serp_result_route appending_storage
     (JObj [(''threadId'', JNum 7), (''query'', JStr ''best ai writer''),
            (''position'', JNull), (''isRanked'', JBool False)]) [] =
     (Failure 400 ''Invalid request data'', []) \<and>
   create_serp_result_route appending_storage
     (JObj [(''threadId'', JNum 7), (''query'', JStr ''best ai writer''),
            (''position'', JNum (- 3)), (''isRanked'', JBool False)]) [] =
     (Reply 201 \<lparr>threadId = 7, query = ''best ai writer'', position = - 3, isRanked = False\<rparr>,
      [\<lparr>threadId = 7, query = ''best ai writer'', position = - 3, isRanked = False\<rparr>])"
  by (simp add: create_serp_result_route_def serp_result_schema_def z_object_def
      property_def z_number_def z_string_def z_boolean_def create_serp_catch_def
      create_serp_reply_def appending_storage_def)

text \<open>
  C3, amended.  The create operation takes a numeric position only: when the position of
  the body is missing, null or not a number, the answer is the validation error and the
  storage is not called; when the four properties have their types, the storage is
  called with exactly the given position, whatever number it is (no sign or integrality
  check is made), and its row is answered with status 201.
\<close>

theorem create_serp_result_position:
  "(z_number (property props ''position'') = Inl e \<longrightarrow>
      create_serp_result_route createSerpResult (JObj props) st =
        (Failure 400 ''Invalid request data'', st)) \<and>
   (property props ''threadId'' = Some (JNum t) \<and>
    property props ''query'' = Some (JStr q) \<and>
    property props ''position'' = Some (JNum p) \<and>
    property props ''isRanked'' = Some (JBool r) \<longrightarrow>
      create_serp_result_route createSerpResult (JObj props) st =
        create_serp_reply
          (createSerpResult \<lparr>threadId = t, query = q, position = p, isRanked = r\<rparr> st))"
proof (intro conjI impI)
  assume "z_number (property props ''position'') = Inl e"
  then have "serp_result_schema (JObj props) = Inl ZodError"
    by (rule serp_result_schema_position)
  then show "create_serp_result_route createSerpResult (JObj props) st =
      (Failure 400 ''Invalid request data'', st)"
    by (simp add: create_serp_result_route_def create_serp_catch_def)
next
  assume "property props ''threadId'' = Some (JNum t) \<and>
    property props ''query'' = Some (JStr q) \<and>
    property props ''position'' = Some (JNum p) \<and>
    property props ''isRanked'' = Some (JBool r)"
  then show "create_serp_result_route createSerpResult (JObj props) st =
      create_serp_reply
        (createSerpResult \<lparr>threadId = t, query = q, position = p, isRanked = r\<rparr> st)"
    by (simp add: create_serp_result_route_def serp_result_schema_def z_object_def
        z_number_def z_string_def z_boolean_def)
qed

theorem create_serp_result_position_witness:
  "z_number (property [(''threadId'', JNum 7), (''query'', JStr ''q'')] ''position'') =
     Inl ZodError \<and>
   create_serp_result_route appending_storage
     (JObj [(''threadId'', JNum 7), (''query'', JStr ''q'')]) [] =
     (Failure 400 ''Invalid request data'', []) \<and>
   create_serp_result_route appending_storage
     (JObj [(''threadId'', JNum 7), (''query'', JStr ''q''),
            (''position'', JNum 4), (''isRanked'', JBool True)]) [] =
     (Reply 201 \<lparr>threadId = 7, query = ''q'', position = 4, isRanked = True\<rparr>,
      [\<lparr>threadId = 7, query = ''q'', position = 4, isRanked = True\<rparr>])"
proof -
  have a: "z_number (property [(''threadId'', JNum 7), (''query'', JStr ''q'')] ''position'') =
      Inl ZodError"
    by (simp add: property_def z_number_def)
  have b: "property [(''threadId'', JNum 7), (''query'', JStr ''q''),
            (''position'', JNum 4), (''isRanked'', JBool True)] ''threadId'' = Some (JNum 7) \<and>
    property [(''threadId'', JNum 7), (''query'', JStr ''q''),
            (''position'', JNum 4), (''isRanked'', JBool True)] ''query'' = Some (JStr ''q'') \<and>
    property [(''threadId'', JNum 7), (''query'', JStr ''q''),
            (''position'', JNum 4), (''isRanked'', JBool True)] ''position'' = Some (JNum 4) \<and>
    property [(''threadId'', JNum 7), (''query'', JStr ''q''),
            (''position'', JNum 4), (''isRanked'', JBool True)] ''isRanked'' = Some (JBool True)"
    by (simp add: property_def)
  show ?thesis
    using create_serp_result_position
      [of "[(''threadId'', JNum 7), (''query'', JStr ''q'')]" ZodError appending_storage "[]"
          7 "''q''" 4 True]
      create_serp_result_position
      [of "[(''threadId'', JNum 7), (''query'', JStr ''q''),
            (''position'', JNum 4), (''isRanked'', JBool True)]" ZodError appending_storage "[]"
          7 "''q''" 4 True] a b
    by (simp add: create_serp_reply_def appending_storage_def)
qed

section \<open>Generating a comment\<close>

lemma getSubstitution_no_dollar:
  "CHR ''$'' \<notin> set v \<Longrightarrow> getSubstitution m pre post v = v"
  by (induction m pre post v rule: getSubstitution.induct) auto

lemma replaceAll_from_match:
  "pat \<noteq> [] \<Longrightarrow>
   replaceAll_from pat rep pre (pat @ rest) =
     getSubstitution pat pre rest rep @ replaceAll_from pat rep (pre @ pat) rest"
  by (cases pat) simp_all

lemma replaceAll_from_skip:
  "CHR ''{'' \<notin> set t \<Longrightarrow>
   replaceAll_from (CHR ''{'' # pat) rep pre (t @ rest) =
     t @ replaceAll_from (CHR ''{'' # pat) rep (pre @ t) rest"
  by (induction t arbitrary: pre) auto

lemma placeholder_prefix:
  "CHR ''}'' \<notin> set n \<Longrightarrow> CHR ''}'' \<notin> set m \<Longrightarrow>
   prefix (n @ ''}}'') (m @ ''}}'' @ rest) \<Longrightarrow> n = m"
proof (induction n arbitrary: m)
  case Nil
  then show ?case by (cases m) auto
next
  case (Cons a n)
  then show ?case by (cases m) auto
qed

lemma replaceAll_from_other_hole:
  assumes "piece_wf (Hole n)" "piece_wf (Hole m)" "m \<noteq> n"
  shows "replaceAll_from (placeholder n) rep pre (placeholder m @ rest) =
     placeholder m @ replaceAll_from (placeholder n) rep (pre @ placeholder m) rest"
proof -
  have np: "\<not> prefix (n @ ''}}'') (m @ ''}}'' @ rest)"
    using assms placeholder_prefix [of n m rest] by auto
  have n2: "\<not> prefix (CHR ''{'' # n @ ''}}'') (m @ ''}}'' @ rest)"
    using assms by (cases m) auto
  have "replaceAll_from (placeholder n) rep pre (placeholder m @ rest) =
      CHR ''{'' # CHR ''{'' #
        replaceAll_from (placeholder n) rep (pre @ ''{{'') (m @ ''}}'' @ rest)"
    using np n2 by (simp add: placeholder_def)
  also have "replaceAll_from (placeholder n) rep (pre @ ''{{'') (m @ ''}}'' @ rest) =
      (m @ ''}}'') @ replaceAll_from (placeholder n) rep ((pre @ ''{{'') @ (m @ ''}}'')) rest"
    using assms replaceAll_from_skip [of "m @ ''}}''" "CHR ''{'' # n @ ''}}''" rep "pre @ ''{{''" rest]
    by (simp add: placeholder_def)
  finally show ?thesis by (simp add: placeholder_def)
qed

lemma replaceAll_from_render:
  assumes "piece_wf (Hole n)" "literal v"
  shows "list_all piece_wf ps \<Longrightarrow>
    replaceAll_from (placeholder n) v pre (render ps) = render (map (fill n v) ps)"
proof (induction ps arbitrary: pre)
  case Nil
  then show ?case by (simp add: placeholder_def)
next
  case (Cons p ps)
  show ?case
  proof (cases p)
    case (Plain t)
    with Cons show ?thesis
      using replaceAll_from_skip [of t "CHR ''{'' # n @ ''}}''" v pre "render ps"]
      by (simp add: placeholder_def)
  next
    case (Hole m)
    show ?thesis
    proof (cases "m = n")
      case True
      have "placeholder n \<noteq> []" by (simp add: placeholder_def)
      with Cons Hole True assms(2) show ?thesis
        by (simp add: replaceAll_from_match literal_def)
    next
      case False
      with Cons Hole assms(1) show ?thesis
        using replaceAll_from_other_hole [of n m v pre "render ps"] by simp
    qed
  qed
qed

lemma fill_wf:
  "CHR ''{'' \<notin> set v \<Longrightarrow> list_all piece_wf ps \<Longrightarrow> list_all piece_wf (map (fill n v) ps)"
proof (induction ps)
  case Nil
  then show ?case by simp
next
  case (Cons p ps)
  then show ?case by (cases p) auto
qed

lemma fill_placeholders_foldl:
  "fill_placeholders program t = foldl fill_step t (substitutions program)"
  by (simp add: fill_placeholders_def substitutions_def fill_step_def placeholder_def)

lemma fill_all_Cons: "fill_all tab (fill n v p) = fill_all ((n, v) # tab) p"
  by (cases p) auto

lemma foldl_fill_step_render:
  "list_all piece_wf ps \<Longrightarrow>
   list_all (\<lambda>e. piece_wf (Hole (fst e)) \<and> literal (snd e) \<and> CHR ''{'' \<notin> set (snd e)) tab \<Longrightarrow>
   foldl fill_step (render ps) tab = render (map (fill_all tab) ps)"
proof (induction tab arbitrary: ps)
  case Nil
  have "fill_all [] p = p" for p
    by (cases p) simp_all
  then have "map (fill_all []) ps = ps"
    by (induction ps) simp_all
  then show ?case by simp
next
  case (Cons e tab)
  obtain n v where e: "e = (n, v)" by (cases e)
  from Cons.prems e have wf: "piece_wf (Hole n)" "literal v" "CHR ''{'' \<notin> set v"
    by auto
  have step: "fill_step (render ps) (n, v) = render (map (fill n v) ps)"
    using replaceAll_from_render [OF wf(1) wf(2) Cons.prems(1), of "[]"]
    by (simp add: fill_step_def replaceAll_def)
  have maps: "map (fill_all tab) (map (fill n v) ps) = map (fill_all ((n, v) # tab)) ps"
    by (simp add: fill_all_Cons)
  have "foldl fill_step (render (map (fill n v) ps)) tab =
      render (map (fill_all tab) (map (fill n v) ps))"
    using Cons.prems by (intro Cons.IH fill_wf wf) auto
  then show ?case
    unfolding e foldl_Cons step maps .
qed

lemma inert_literal: "inert v \<Longrightarrow> literal v"
  by (simp add: inert_def literal_def getSubstitution_no_dollar)

lemma literal_price: "literal ''$49''"
  by (simp add: literal_def)

lemma substitutions_ok:
  "program_ok program \<Longrightarrow>
   list_all (\<lambda>e. piece_wf (Hole (fst e)) \<and> literal (snd e) \<and> CHR ''{'' \<notin> set (snd e))
     (substitutions program)"
  by (simp add: substitutions_def program_ok_def inert_literal literal_price)
    (simp add: inert_def literal_def)

lemma map_fst_substitutions: "map fst (substitutions program) = placeholder_names"
  by (simp add: substitutions_def placeholder_names_def)

lemma piece_ok_wf: "piece_ok p \<Longrightarrow> piece_wf p"
  by (cases p) (auto simp: placeholder_names_def)

lemma recognized_lookup:
  assumes "m \<in> set placeholder_names"
  obtains v where "map_of (substitutions program) m = Some v"
    and "(m, v) \<in> set (substitutions program)"
proof -
  from assms have "m \<in> fst ` set (substitutions program)"
    using map_fst_substitutions [of program] by (metis list.set_map)
  then obtain v where v: "map_of (substitutions program) m = Some v"
    by (metis domD dom_map_of_conv_image_fst)
  then have "(m, v) \<in> set (substitutions program)" by (rule map_of_SomeD)
  with v that show thesis by blast
qed

lemma render_fill_all:
  "list_all piece_ok ps \<Longrightarrow>
   render (map (fill_all (substitutions program)) ps) = concat (map (expansion program) ps)"
proof (induction ps)
  case Nil
  then show ?case by simp
next
  case (Cons p ps)
  show ?case
  proof (cases p)
    case (Plain t)
    with Cons show ?thesis by simp
  next
    case (Hole m)
    with Cons.prems have "m \<in> set placeholder_names" by simp
    then obtain v where "map_of (substitutions program) m = Some v"
      by (rule recognized_lookup)
    with Cons Hole show ?thesis by simp
  qed
qed

lemma expansion_no_brace:
  assumes "program_ok program" "piece_ok p"
  shows "CHR ''{'' \<notin> set (expansion program p)"
proof (cases p)
  case (Plain t)
  with assms(2) show ?thesis by simp
next
  case (Hole m)
  with assms(2) have "m \<in> set placeholder_names" by simp
  then obtain v where v: "map_of (substitutions program) m = Some v"
    and mem: "(m, v) \<in> set (substitutions program)"
    by (rule recognized_lookup)
  from mem substitutions_ok [OF assms(1)] have "CHR ''{'' \<notin> set v"
    by (auto simp: list_all_iff)
  with Hole v show ?thesis by simp
qed

text \<open>
  C10, as the code has it.  The replacements are made one after the other on the text
  produced so far, so a placeholder can come into being after its own replacement has
  been made: with a program that has no promo code, the empty replacement of
  \<^verbatim>\<open>{{promo_code}}\<close> in the template below joins the text around it to
  \<^verbatim>\<open>{{program}}\<close>, which is the generated comment.
\<close>

theorem generate_comment_counterexample:
  "generate_comment_route one_thread one_program one_template
     (JObj [(''threadId'', JNum 1), (''affiliateProgramId'', JNum 1), (''templateId'', JNum 1)]) =
     Reply 200 ''{{program}}''"
  by (simp add: generate_comment_route_def generate_comment_schema_def z_object_def
      z_number_def property_def one_thread_def one_program_def one_template_def
      fill_placeholders_def replaceAll_def promo_code_or_empty_def)

text \<open>
  C10, amended.  For a template made of text without an opening brace and of recognized
  placeholders, and a program whose name, link and promo code contain neither an opening
  brace nor a dollar sign, every occurrence of every placeholder is replaced by its text
  (the comment is the concatenation of the expansions of the pieces), the comment
  contains no recognized placeholder, and \<^verbatim>\<open>{{promo_code}}\<close> expands to the empty text
  when the program has no promo code.
\<close>

theorem fill_placeholders_template:
  assumes "template_ok ps" "program_ok program"
  shows "fill_placeholders program (render ps) = concat (map (expansion program) ps) \<and>
    (\<forall>n \<in> set placeholder_names.
       \<not> sublist (placeholder n) (fill_placeholders program (render ps))) \<and>
    (promoCode program = None \<longrightarrow> expansion program (Hole ''promo_code'') = [])"
proof -
  have wf: "list_all piece_wf ps"
    using assms(1) by (auto simp: template_ok_def list_all_iff piece_ok_wf)
  have eq: "fill_placeholders program (render ps) = concat (map (expansion program) ps)"
    using foldl_fill_step_render [OF wf substitutions_ok [OF assms(2)]] assms(1)
    by (simp add: fill_placeholders_foldl render_fill_all template_ok_def)
  have nb: "CHR ''{'' \<notin> set (concat (map (expansion program) ps))"
    using assms by (auto simp: template_ok_def list_all_iff dest: expansion_no_brace)
  have "\<not> sublist (placeholder n) (concat (map (expansion program) ps))" for n
  proof
    assume "sublist (placeholder n) (concat (map (expansion program) ps))"
    then have "set (placeholder n) \<subseteq> set (concat (map (expansion program) ps))"
      by (rule set_mono_sublist)
    with nb show False by (simp add: placeholder_def)
  qed
  moreover have "promoCode program = None \<longrightarrow> expansion program (Hole ''promo_code'') = []"
    by (simp add: substitutions_def promo_code_or_empty_def)
  ultimately show ?thesis using eq by simp
qed

theorem fill_placeholders_template_witness:
  "template_ok [Plain ''Try '', Hole ''program'', Plain '': '', Hole ''link'', Plain '' ('',
       Hole ''promo_code'', Plain ''), '', Hole ''price'', Plain ''; '', Hole ''program''] \<and>
   program_ok \<lparr>name = ''Jasper'', link = ''https://jasper.ai'', promoCode = None\<rparr> \<and>
   fill_placeholders \<lparr>name = ''Jasper'', link = ''https://jasper.ai'', promoCode = None\<rparr>
     ''Try {{program}}: {{link}} ({{promo_code}}), {{price}}; {{program}}'' =
     ''Try Jasper: https://jasper.ai (), $49; Jasper'' \<and>
   \<not> sublist ''{{program}}''
     (fill_placeholders \<lparr>name = ''Jasper'', link = ''https://jasper.ai'', promoCode = None\<rparr>
        ''Try {{program}}: {{link}} ({{promo_code}}), {{price}}; {{program}}'')"
proof -
  have t: "template_ok [Plain ''Try '', Hole ''program'', Plain '': '', Hole ''link'',
       Plain '' ('', Hole ''promo_code'', Plain ''), '', Hole ''price'', Plain ''; '',
       Hole ''program'']"
    by (simp add: template_ok_def placeholder_names_def)
  have p: "program_ok \<lparr>name = ''Jasper'', link = ''https://jasper.ai'', promoCode = None\<rparr>"
    by (simp add: program_ok_def inert_def promo_code_or_empty_def)
  have n: "''program'' \<in> set placeholder_names"
    by (simp add: placeholder_names_def)
  note th = fill_placeholders_template [OF t p]
  from th have e: "fill_placeholders \<lparr>name = ''Jasper'', link = ''https://jasper.ai'', promoCode = None\<rparr>
     ''Try {{program}}: {{link}} ({{promo_code}}), {{price}}; {{program}}'' =
     ''Try Jasper: https://jasper.ai (), $49; Jasper''"
    by (simp add: placeholder_def substitutions_def promo_code_or_empty_def)
  from th n have "\<not> sublist (placeholder ''program'')
     (fill_placeholders \<lparr>name = ''Jasper'', link = ''https://jasper.ai'', promoCode = None\<rparr>
        (render [Plain ''Try '', Hole ''program'', Plain '': '', Hole ''link'', Plain '' ('',
       Hole ''promo_code'', Plain ''), '', Hole ''price'', Plain ''; '', Hole ''program'']))"
    by blast
  then have s: "\<not> sublist ''{{program}}''
     (fill_placeholders \<lparr>name = ''Jasper'', link = ''https://jasper.ai'', promoCode = None\<rparr>
        ''Try {{program}}: {{link}} ({{promo_code}}), {{price}}; {{program}}'')"
    by (simp add: placeholder_def)
  from t p e s show ?thesis by blast
qed

section \<open>The listings\<close>

lemma positions_take_drop: "positions the_offset the_limit xs = take the_limit (drop the_offset xs)"
  by (rule nth_equalityI) (auto simp: positions_def min_def split: if_splits)

lemma parseInt_empty: "parseInt [] = NaN"
  by (simp add: parseInt_def)

lemma limit_param:
  assumes "parseInt_of (with_default 10 v) = Num (int l)"
  shows "parsed_if_truthy (with_default 10 v) = Some (Num (int l))"
  using assms
  by (cases v) (auto simp: with_default_def parsed_if_truthy_def parseInt_empty)

lemma offset_param:
  assumes "parseInt_of (with_default 0 v) = Num (int k)"
  shows "parsed_if_truthy (with_default 0 v) = Some (Num (int k)) \<or>
    (parsed_if_truthy (with_default 0 v) = None \<and> k = 0)"
  using assms
  by (cases v) (auto simp: with_default_def parsed_if_truthy_def parseInt_empty)

lemma window_page:
  assumes "the_offset = Some (Num (int k)) \<or> (the_offset = None \<and> k = 0)"
  shows "window (Some (Num (int l))) the_offset xs = positions k l xs"
  using assms by (auto simp: window_def positions_take_drop)

lemma window_unpaged: "window None None xs = xs"
  by (simp add: window_def)

lemma length_ordered: "length (ordered d v i xs) = length xs"
  by (simp add: ordered_def)

lemma mset_ordered: "mset (ordered d v i xs) = mset xs"
  by (simp add: ordered_def)

lemma list_query_page:
  assumes "the_limit = Some (Num (int l))" "the_offset = Some (Num (int k)) \<or> (the_offset = None \<and> k = 0)"
  shows "list_query M V I coll \<lparr>predicates = p, limit = the_limit, offset = the_offset, sortBy = sb, sortDirection = sd\<rparr> =
    Inr (positions k l (ordered sd (V sb) I (filter (M p) coll)))"
  using assms by (auto simp: list_query_def malformed_def window_page)

lemma list_query_unpaged:
  "list_query M V I coll \<lparr>predicates = p, limit = None, offset = None, sortBy = sb, sortDirection = sd\<rparr> =
    Inr (ordered sd (V sb) I (filter (M p) coll))"
  by (simp add: list_query_def malformed_def window_unpaged)

lemma threads_page:
  assumes "parseInt_of (with_default 10 (q ''limit'')) = Num (int l)"
    and "parseInt_of (with_default 0 (q ''offset'')) = Num (int k)"
  shows "get_threads_route (getThreads M V I threads) q =
      Reply 200
        \<lparr>items = positions k l
           (ordered (Some (direction_or_desc (q ''sortDirection''))) (V (q ''sortBy'')) I
              (filter (M (thread_predicates_of q)) threads)),
         total = length (filter (M (thread_predicates_of q)) threads),
         reported_limit = Num (int l), reported_offset = Num (int k)\<rparr>"
  using assms limit_param [OF assms(1)] offset_param [OF assms(2)]
  by (auto simp: get_threads_route_def getThreads_def Let_def list_query_page
      list_query_unpaged length_ordered)

lemma opportunities_page:
  assumes "parseInt_of (with_default 10 (q ''limit'')) = Num (int l)"
    and "parseInt_of (with_default 0 (q ''offset'')) = Num (int k)"
  shows "get_opportunities_route (getOpportunities V opps) q =
      Reply 200
        \<lparr>items = positions k l
           (ordered (Some (direction_or_desc (q ''sortDirection''))) (V (q ''sortBy'')) ident
              (filter (opportunity_matches (opportunity_predicates_of q)) opps)),
         total = length (filter (opportunity_matches (opportunity_predicates_of q)) opps),
         reported_limit = Num (int l), reported_offset = Num (int k)\<rparr>"
  using assms limit_param [OF assms(1)] offset_param [OF assms(2)]
  by (auto simp: get_opportunities_route_def getOpportunities_def Let_def list_query_page
      list_query_unpaged length_ordered)

lemma default_values:
  assumes "parseInt_of (with_default 10 (q ''limit'')) = Num (int l)"
    and "parseInt_of (with_default 0 (q ''offset'')) = Num (int k)"
  shows "(q ''limit'' = None \<longrightarrow> l = 10) \<and> (q ''offset'' = None \<longrightarrow> k = 0)"
  using assms by (auto simp: with_default_def)

text \<open>
  C5.  For the listing of threads and the listing of opportunities over the storage
  above: with \<open>l\<close> the limit and \<open>k\<close> the offset of the query string, \<open>10\<close> and \<open>0\<close> when
  they are not supplied, the answer carries the items at the positions \<open>k + 1\<close> to
  \<open>k + l\<close> of the full sorted filtered result, together with the total, \<open>l\<close> and \<open>k\<close>.
\<close>

theorem listing_page:
  assumes "parseInt_of (with_default 10 (q ''limit'')) = Num (int l)"
    and "parseInt_of (with_default 0 (q ''offset'')) = Num (int k)"
  shows "(q ''limit'' = None \<longrightarrow> l = 10) \<and> (q ''offset'' = None \<longrightarrow> k = 0) \<and>
    get_threads_route (getThreads M V I threads) q =
      Reply 200
        \<lparr>items = positions k l
           (ordered (Some (direction_or_desc (q ''sortDirection''))) (V (q ''sortBy'')) I
              (filter (M (thread_predicates_of q)) threads)),
         total = length (filter (M (thread_predicates_of q)) threads),
         reported_limit = Num (int l), reported_offset = Num (int k)\<rparr> \<and>
    get_opportunities_route (getOpportunities W opps) q =
      Reply 200
        \<lparr>items = positions k l
           (ordered (Some (direction_or_desc (q ''sortDirection''))) (W (q ''sortBy'')) ident
              (filter (opportunity_matches (opportunity_predicates_of q)) opps)),
         total = length (filter (opportunity_matches (opportunity_predicates_of q)) opps),
         reported_limit = Num (int l), reported_offset = Num (int k)\<rparr>"
  using default_values [OF assms] threads_page [OF assms] opportunities_page [OF assms]
  by blast

lemma list_query_total:
  assumes "list_query M V I coll \<lparr>predicates = p, limit = None, offset = None, sortBy = None,
      sortDirection = None\<rparr> = Inr unpaged"
  shows "list_query M V I coll \<lparr>predicates = p, limit = None, offset = None, sortBy = sb,
      sortDirection = sd\<rparr> = Inr (ordered sd (V sb) I (filter (M p) coll)) \<and>
    length unpaged = length (ordered sd (V sb) I (filter (M p) coll))"
  using assms by (auto simp: list_query_unpaged length_ordered)

lemma threads_total:
  assumes "get_threads_route G q = Reply 200 r"
  shows "\<exists>unpaged. G \<lparr>predicates = thread_predicates_of q, limit = None, offset = None,
      sortBy = None, sortDirection = None\<rparr> = Inr unpaged \<and> total r = length unpaged"
  using assms by (auto simp: get_threads_route_def Let_def split: sum.splits)

lemma opportunities_total:
  assumes "get_opportunities_route H q = Reply 200 r"
  shows "\<exists>unpaged. H \<lparr>predicates = opportunity_predicates_of q, limit = None, offset = None,
      sortBy = None, sortDirection = None\<rparr> = Inr unpaged \<and> total r = length unpaged"
  using assms by (auto simp: get_opportunities_route_def Let_def split: sum.splits)

text \<open>
  C6.  The total answered with a page is the number of items that the storage returns
  for the same predicates with neither limit nor offset (whatever the storage is); over
  the storage above it is also the number of items of the same query, with its sort
  field and direction, when neither limit nor offset is applied.
\<close>

theorem total_is_unpaged_count:
  "(get_threads_route G q = Reply 200 r \<longrightarrow>
     (\<exists>unpaged. G \<lparr>predicates = thread_predicates_of q, limit = None, offset = None,
          sortBy = None, sortDirection = None\<rparr> = Inr unpaged \<and>
        total r = length unpaged)) \<and>
   (get_opportunities_route H q = Reply 200 r' \<longrightarrow>
     (\<exists>unpaged. H \<lparr>predicates = opportunity_predicates_of q, limit = None, offset = None,
          sortBy = None, sortDirection = None\<rparr> = Inr unpaged \<and>
        total r' = length unpaged)) \<and>
   (get_threads_route (getThreads M V I threads) q = Reply 200 r \<longrightarrow>
     (\<exists>full. getThreads M V I threads
         \<lparr>predicates = thread_predicates_of q, limit = None, offset = None,
          sortBy = q ''sortBy'',
          sortDirection = Some (direction_or_desc (q ''sortDirection''))\<rparr> = Inr full \<and>
        total r = length full)) \<and>
   (get_opportunities_route (getOpportunities W opps) q = Reply 200 r' \<longrightarrow>
     (\<exists>full. getOpportunities W opps
         \<lparr>predicates = opportunity_predicates_of q, limit = None, offset = None,
          sortBy = q ''sortBy'',
          sortDirection = Some (direction_or_desc (q ''sortDirection''))\<rparr> = Inr full \<and>
        total r' = length full))"
proof (intro conjI impI)
  assume "get_threads_route G q = Reply 200 r"
  then show "\<exists>unpaged. G \<lparr>predicates = thread_predicates_of q, limit = None, offset = None,
          sortBy = None, sortDirection = None\<rparr> = Inr unpaged \<and> total r = length unpaged"
    by (rule threads_total)
next
  assume "get_opportunities_route H q = Reply 200 r'"
  then show "\<exists>unpaged. H \<lparr>predicates = opportunity_predicates_of q, limit = None,
          offset = None, sortBy = None, sortDirection = None\<rparr> = Inr unpaged \<and>
        total r' = length unpaged"
    by (rule opportunities_total)
next
  assume "get_threads_route (getThreads M V I threads) q = Reply 200 r"
  then have "total r = length (filter (M (thread_predicates_of q)) threads)"
    by (auto simp: get_threads_route_def getThreads_def Let_def list_query_unpaged
        length_ordered split: sum.splits)
  then show "\<exists>full. getThreads M V I threads
         \<lparr>predicates = thread_predicates_of q, limit = None, offset = None,
          sortBy = q ''sortBy'',
          sortDirection = Some (direction_or_desc (q ''sortDirection''))\<rparr> = Inr full \<and>
        total r = length full"
    by (simp add: getThreads_def list_query_unpaged length_ordered)
next
  assume "get_opportunities_route (getOpportunities W opps) q = Reply 200 r'"
  then have "total r' = length (filter (opportunity_matches (opportunity_predicates_of q)) opps)"
    by (auto simp: get_opportunities_route_def getOpportunities_def Let_def list_query_unpaged
        length_ordered split: sum.splits)
  then show "\<exists>full. getOpportunities W opps
         \<lparr>predicates = opportunity_predicates_of q, limit = None, offset = None,
          sortBy = q ''sortBy'',
          sortDirection = Some (direction_or_desc (q ''sortDirection''))\<rparr> = Inr full \<and>
        total r' = length full"
    by (simp add: getOpportunities_def list_query_unpaged length_ordered)
qed

lemma parseInt_50: "parseInt ''50'' = Num 50"
  by (simp add: parseInt_def white_space_def decimal_digit_def digits_value_def)

lemma parseInt_80: "parseInt ''80'' = Num 80"
  by (simp add: parseInt_def white_space_def decimal_digit_def digits_value_def)

lemma set_window: "set (window lm os xs) \<subseteq> set xs"
  by (auto simp: window_def dest: in_set_takeD in_set_dropD split: option.splits jsnum.splits)

lemma set_ordered: "set (ordered d v i xs) = set xs"
  by (simp add: ordered_def)

lemma set_list_query:
  "list_query M V I coll opts = Inr page \<Longrightarrow> x \<in> set page \<Longrightarrow> x \<in> set coll \<and> M (predicates opts) x"
proof -
  assume q: "list_query M V I coll opts = Inr page" and x: "x \<in> set page"
  let ?sorted = "ordered (sortDirection opts) (V (sortBy opts)) I
      (filter (M (predicates opts)) coll)"
  from q have "page = window (limit opts) (offset opts) ?sorted"
    by (auto simp: list_query_def split: if_splits)
  with x set_window [of "limit opts" "offset opts" ?sorted] have "x \<in> set ?sorted"
    by blast
  then show ?thesis by (simp add: set_ordered)
qed

lemma score_range_predicates:
  assumes "q ''scoreMin'' = Some ''50''" "q ''scoreMax'' = Some ''80''"
  shows "opportunity_matches (opportunity_predicates_of q) opp \<Longrightarrow> 50 \<le> score opp \<and> score opp \<le> 80"
  using assms
  by (simp add: opportunity_matches_def opportunity_predicates_of_def numeric_param_def
      parseInt_50 parseInt_80)

lemma score_range_only:
  assumes "q ''scoreMin'' = Some ''50''" "q ''scoreMax'' = Some ''80''"
    and "q ''threadId'' = None" "q ''intent'' = None" "q ''score'' = None"
      "q ''serpMatch'' = None" "q ''action'' = None"
  shows "opportunity_matches (opportunity_predicates_of q) = (\<lambda>opp. 50 \<le> score opp \<and> score opp \<le> 80)"
  using assms
  by (simp add: opportunity_matches_def opportunity_predicates_of_def numeric_param_def
      boolean_param_def parseInt_50 parseInt_80 fun_eq_iff)

text \<open>
  C7.  With \<^verbatim>\<open>scoreMin=50\<close> and \<^verbatim>\<open>scoreMax=80\<close> every opportunity of the answer is a stored
  one with a score from 50 to 80, both bounds included; and when no other predicate is
  supplied, the total is the number of stored opportunities in that interval and the
  unpaged result consists of exactly those.
\<close>

theorem score_range_filter:
  assumes "q ''scoreMin'' = Some ''50''" "q ''scoreMax'' = Some ''80''"
    and "get_opportunities_route (getOpportunities W opps) q = Reply 200 r"
  shows "(\<forall>opp \<in> set (items r). opp \<in> set opps \<and> 50 \<le> score opp \<and> score opp \<le> 80) \<and>
    (q ''threadId'' = None \<and> q ''intent'' = None \<and> q ''score'' = None \<and>
     q ''serpMatch'' = None \<and> q ''action'' = None \<longrightarrow>
       total r = length (filter (\<lambda>opp. 50 \<le> score opp \<and> score opp \<le> 80) opps) \<and>
       (\<exists>full. getOpportunities W opps
            \<lparr>predicates = opportunity_predicates_of q, limit = None, offset = None,
             sortBy = q ''sortBy'',
             sortDirection = Some (direction_or_desc (q ''sortDirection''))\<rparr> = Inr full \<and>
          mset full = mset (filter (\<lambda>opp. 50 \<le> score opp \<and> score opp \<le> 80) opps) \<and>
          set (items r) \<subseteq> set full))"
proof (intro conjI ballI impI)
  from assms(3) obtain lm os where page:
    "list_query opportunity_matches W ident opps
       \<lparr>predicates = opportunity_predicates_of q, limit = lm, offset = os, sortBy = q ''sortBy'',
        sortDirection = Some (direction_or_desc (q ''sortDirection''))\<rparr> = Inr (items r)"
    and tot: "total r = length (filter (opportunity_matches (opportunity_predicates_of q)) opps)"
    by (auto simp: get_opportunities_route_def getOpportunities_def Let_def list_query_unpaged
        length_ordered split: sum.splits)
  {
    fix opp assume "opp \<in> set (items r)"
    with set_list_query [OF page] have "opp \<in> set opps"
      and "opportunity_matches (opportunity_predicates_of q) opp" by auto
    with score_range_predicates [OF assms(1,2)]
    show "opp \<in> set opps" and "50 \<le> score opp" and "score opp \<le> 80" by auto
  }
  assume others: "q ''threadId'' = None \<and> q ''intent'' = None \<and> q ''score'' = None \<and>
     q ''serpMatch'' = None \<and> q ''action'' = None"
  then have m: "opportunity_matches (opportunity_predicates_of q) =
      (\<lambda>opp. 50 \<le> score opp \<and> score opp \<le> 80)"
    using score_range_only [OF assms(1,2)] by blast
  from tot m show "total r = length (filter (\<lambda>opp. 50 \<le> score opp \<and> score opp \<le> 80) opps)"
    by simp
  let ?full = "ordered (Some (direction_or_desc (q ''sortDirection''))) (W (q ''sortBy'')) ident
      (filter (opportunity_matches (opportunity_predicates_of q)) opps)"
  have "set (items r) \<subseteq> set ?full"
    using page set_window [of lm os ?full] by (auto simp: list_query_def split: if_splits)
  then show "\<exists>full. getOpportunities W opps
            \<lparr>predicates = opportunity_predicates_of q, limit = None, offset = None,
             sortBy = q ''sortBy'',
             sortDirection = Some (direction_or_desc (q ''sortDirection''))\<rparr> = Inr full \<and>
          mset full = mset (filter (\<lambda>opp. 50 \<le> score opp \<and> score opp \<le> 80) opps) \<and>
          set (items r) \<subseteq> set full"
    using m by (simp add: getOpportunities_def list_query_unpaged mset_ordered)
qed


lemma parseInt_5: "parseInt ''5'' = Num 5"
  by (simp add: parseInt_def white_space_def decimal_digit_def digits_value_def)

lemma parseInt_10: "parseInt ''10'' = Num 10"
  by (simp add: parseInt_def white_space_def decimal_digit_def digits_value_def)

lemma parseInt_2: "parseInt ''2'' = Num 2"
  by (simp add: parseInt_def white_space_def decimal_digit_def digits_value_def)

lemma parseInt_1: "parseInt ''1'' = Num 1"
  by (simp add: parseInt_def white_space_def decimal_digit_def digits_value_def)

lemma upt_1_24: "[1 ..< 24] = [1, 2, 3, 4, 5, 6, 7, 8, 9, 10, 11, 12, 13, 14, 15, 16, 17, 18, 19,
    20, 21, 22, 23 :: nat]"
  by (simp add: upt_rec)

lemma sorted_threads:
  "ordered (Some ''desc'') (thread_number f) id
     (filter (every_thread p) [1 ..< 24]) =
   [23, 22, 21, 20, 19, 18, 17, 16, 15, 14, 13, 12, 11, 10, 9, 8, 7, 6, 5, 4, 3, 2, 1]"
  unfolding upt_1_24 by (simp add: ordered_def thread_number_def every_thread_def)

lemma sorted_opportunities:
  "ordered (Some ''desc'') (by_score f) ident five_opportunities =
   [scored 5 81, scored 4 80, scored 3 65, scored 2 50, scored 1 49]"
  by (simp add: ordered_def by_score_def five_opportunities_def scored_def)

lemma no_predicates:
  "q ''threadId'' = None \<Longrightarrow> q ''intent'' = None \<Longrightarrow> q ''score'' = None \<Longrightarrow>
   q ''scoreMin'' = None \<Longrightarrow> q ''scoreMax'' = None \<Longrightarrow> q ''serpMatch'' = None \<Longrightarrow>
   q ''action'' = None \<Longrightarrow> filter (opportunity_matches (opportunity_predicates_of q)) opps = opps"
  by (simp add: opportunity_matches_def opportunity_predicates_of_def numeric_param_def
      boolean_param_def)

lemma third_page_limit: "parseInt_of (with_default 10 (third_page ''limit'')) = Num (int 5)"
  by (simp add: third_page_def with_default_def parseInt_5)

lemma third_page_offset: "parseInt_of (with_default 0 (third_page ''offset'')) = Num (int 10)"
  by (simp add: third_page_def with_default_def parseInt_10)

lemma no_parameters_limit: "parseInt_of (with_default 10 (no_parameters ''limit'')) = Num (int 10)"
  by (simp add: no_parameters_def with_default_def)

lemma no_parameters_offset: "parseInt_of (with_default 0 (no_parameters ''offset'')) = Num (int 0)"
  by (simp add: no_parameters_def with_default_def)

lemma third_page_direction: "direction_or_desc (third_page ''sortDirection'') = ''desc''"
  by (simp add: direction_or_desc_def third_page_def)

lemma no_parameters_direction: "direction_or_desc (no_parameters ''sortDirection'') = ''desc''"
  by (simp add: direction_or_desc_def no_parameters_def)

lemma third_page_all:
  "filter (opportunity_matches (opportunity_predicates_of third_page)) five_opportunities =
     five_opportunities"
  by (simp add: no_predicates third_page_def)

lemma no_parameters_all:
  "filter (opportunity_matches (opportunity_predicates_of no_parameters)) five_opportunities =
     five_opportunities"
  by (simp add: no_predicates no_parameters_def)

lemma demo_lengths:
  "length five_opportunities = 5" "length (filter (every_thread p) [1 ..< 24]) = 23"
  by (simp_all add: five_opportunities_def every_thread_def)

lemma third_page_threads:
  "get_threads_route (getThreads every_thread thread_number id [1 ..< 24]) third_page =
     Reply 200 \<lparr>items = [13, 12, 11, 10, 9], total = 23,
                reported_limit = Num 5, reported_offset = Num 10\<rparr>"
  using threads_page [OF third_page_limit third_page_offset, of every_thread thread_number id
      "[1 ..< 24]"]
  unfolding third_page_direction sorted_threads demo_lengths positions_take_drop
  by simp

lemma third_page_opportunities:
  "get_opportunities_route (getOpportunities by_score five_opportunities) third_page =
     Reply 200 \<lparr>items = [], total = 5, reported_limit = Num 5, reported_offset = Num 10\<rparr>"
  using opportunities_page [OF third_page_limit third_page_offset, of by_score five_opportunities]
  unfolding third_page_direction third_page_all sorted_opportunities demo_lengths
    positions_take_drop
  by simp

lemma score_range_matches:
  "filter (opportunity_matches (opportunity_predicates_of score_range)) five_opportunities =
     [scored 2 50, scored 3 65, scored 4 80]"
  by (simp add: opportunity_matches_def opportunity_predicates_of_def numeric_param_def
      boolean_param_def score_range_def parseInt_50 parseInt_80 five_opportunities_def scored_def)

lemma score_range_sorted:
  "ordered (Some ''desc'') (by_score f) ident [scored 2 50, scored 3 65, scored 4 80] =
     [scored 4 80, scored 3 65, scored 2 50]"
  by (simp add: ordered_def by_score_def scored_def)

lemma score_range_limit: "parseInt_of (with_default 10 (score_range ''limit'')) = Num (int 10)"
  by (simp add: score_range_def with_default_def)

lemma score_range_offset: "parseInt_of (with_default 0 (score_range ''offset'')) = Num (int 0)"
  by (simp add: score_range_def with_default_def)

lemma score_range_direction: "direction_or_desc (score_range ''sortDirection'') = ''desc''"
  by (simp add: direction_or_desc_def score_range_def)

lemma score_range_opportunities:
  "get_opportunities_route (getOpportunities by_score five_opportunities) score_range =
     Reply 200 \<lparr>items = [scored 4 80, scored 3 65, scored 2 50], total = 3,
                reported_limit = Num 10, reported_offset = Num 0\<rparr>"
  using opportunities_page [OF score_range_limit score_range_offset, of by_score
      five_opportunities]
  unfolding score_range_direction score_range_matches score_range_sorted positions_take_drop
  by simp

theorem listing_page_witness:
  "parseInt_of (with_default 10 (third_page ''limit'')) = Num 5 \<and>
   parseInt_of (with_default 0 (third_page ''offset'')) = Num 10 \<and>
   get_threads_route (getThreads every_thread thread_number id [1 ..< 24]) third_page =
     Reply 200 \<lparr>items = [13, 12, 11, 10, 9], total = 23,
                reported_limit = Num 5, reported_offset = Num 10\<rparr> \<and>
   get_threads_route (getThreads every_thread thread_number id [1 ..< 24]) no_parameters =
     Reply 200 \<lparr>items = [23, 22, 21, 20, 19, 18, 17, 16, 15, 14], total = 23,
                reported_limit = Num 10, reported_offset = Num 0\<rparr> \<and>
   get_opportunities_route (getOpportunities by_score five_opportunities) third_page =
     Reply 200 \<lparr>items = [], total = 5, reported_limit = Num 5, reported_offset = Num 10\<rparr> \<and>
   get_opportunities_route (getOpportunities by_score five_opportunities) no_parameters =
     Reply 200 \<lparr>items = [scored 5 81, scored 4 80, scored 3 65, scored 2 50, scored 1 49],
                total = 5, reported_limit = Num 10, reported_offset = Num 0\<rparr>"
proof -
  have a: "parseInt_of (with_default 10 (third_page ''limit'')) = Num (int 5)"
    and b: "parseInt_of (with_default 0 (third_page ''offset'')) = Num (int 10)"
    by (simp_all add: third_page_def with_default_def parseInt_5 parseInt_10)
  have c: "parseInt_of (with_default 10 (no_parameters ''limit'')) = Num (int 10)"
    and d: "parseInt_of (with_default 0 (no_parameters ''offset'')) = Num (int 0)"
    by (simp_all add: no_parameters_def with_default_def)
  have dq: "direction_or_desc (third_page ''sortDirection'') = ''desc''"
    and de: "direction_or_desc (no_parameters ''sortDirection'') = ''desc''"
    by (simp_all add: direction_or_desc_def third_page_def no_parameters_def)
  have fq: "filter (opportunity_matches (opportunity_predicates_of third_page)) five_opportunities =
      five_opportunities"
    and fe: "filter (opportunity_matches (opportunity_predicates_of no_parameters))
      five_opportunities = five_opportunities"
    by (simp_all add: no_predicates third_page_def no_parameters_def)
  have len: "length five_opportunities = 5" "length (filter (every_thread p) [1 ..< 24]) = 23" for p
    by (simp_all add: five_opportunities_def every_thread_def)
  note th1 = listing_page [OF a b, of every_thread thread_number id "[1 ..< 24]" by_score
      five_opportunities]
  note th2 = listing_page [OF c d, of every_thread thread_number id "[1 ..< 24]" by_score
      five_opportunities]
  have t1: "get_threads_route (getThreads every_thread thread_number id [1 ..< 24]) third_page =
     Reply 200 \<lparr>items = [13, 12, 11, 10, 9], total = 23,
                reported_limit = Num 5, reported_offset = Num 10\<rparr>"
    and o1: "get_opportunities_route (getOpportunities by_score five_opportunities) third_page =
     Reply 200 \<lparr>items = [], total = 5, reported_limit = Num 5, reported_offset = Num 10\<rparr>"
    using th1 unfolding dq fq sorted_threads sorted_opportunities len positions_take_drop
    by simp_all
  have t2: "get_threads_route (getThreads every_thread thread_number id [1 ..< 24]) no_parameters =
     Reply 200 \<lparr>items = [23, 22, 21, 20, 19, 18, 17, 16, 15, 14], total = 23,
                reported_limit = Num 10, reported_offset = Num 0\<rparr>"
    and o2: "get_opportunities_route (getOpportunities by_score five_opportunities) no_parameters =
     Reply 200 \<lparr>items = [scored 5 81, scored 4 80, scored 3 65, scored 2 50, scored 1 49],
                total = 5, reported_limit = Num 10, reported_offset = Num 0\<rparr>"
    using th2 unfolding de fe sorted_threads sorted_opportunities len positions_take_drop
    by simp_all
  from a b t1 t2 o1 o2 show ?thesis by simp
qed

theorem total_is_unpaged_count_witness:
  "get_threads_route (getThreads every_thread thread_number id [1 ..< 24]) third_page =
     Reply 200 \<lparr>items = [13, 12, 11, 10, 9], total = 23,
                reported_limit = Num 5, reported_offset = Num 10\<rparr> \<and>
   getThreads every_thread thread_number id [1 ..< 24]
     \<lparr>predicates = thread_predicates_of third_page, limit = None, offset = None,
      sortBy = third_page ''sortBy'',
      sortDirection = Some (direction_or_desc (third_page ''sortDirection''))\<rparr> =
     Inr [23, 22, 21, 20, 19, 18, 17, 16, 15, 14, 13, 12, 11, 10, 9, 8, 7, 6, 5, 4, 3, 2, 1] \<and>
   get_opportunities_route (getOpportunities by_score five_opportunities) score_range =
     Reply 200 \<lparr>items = [scored 4 80, scored 3 65, scored 2 50], total = 3,
                reported_limit = Num 10, reported_offset = Num 0\<rparr> \<and>
   getOpportunities by_score five_opportunities
     \<lparr>predicates = opportunity_predicates_of score_range, limit = None, offset = None,
      sortBy = score_range ''sortBy'',
      sortDirection = Some (direction_or_desc (score_range ''sortDirection''))\<rparr> =
     Inr [scored 4 80, scored 3 65, scored 2 50]"
proof -
  have t: "getThreads every_thread thread_number id [1 ..< 24]
     \<lparr>predicates = thread_predicates_of third_page, limit = None, offset = None,
      sortBy = third_page ''sortBy'',
      sortDirection = Some (direction_or_desc (third_page ''sortDirection''))\<rparr> =
     Inr [23, 22, 21, 20, 19, 18, 17, 16, 15, 14, 13, 12, 11, 10, 9, 8, 7, 6, 5, 4, 3, 2, 1]"
    unfolding getThreads_def list_query_unpaged third_page_direction sorted_threads ..
  have o: "getOpportunities by_score five_opportunities
     \<lparr>predicates = opportunity_predicates_of score_range, limit = None, offset = None,
      sortBy = score_range ''sortBy'',
      sortDirection = Some (direction_or_desc (score_range ''sortDirection''))\<rparr> =
     Inr [scored 4 80, scored 3 65, scored 2 50]"
    unfolding getOpportunities_def list_query_unpaged score_range_direction score_range_matches
      score_range_sorted ..
  note th1 = total_is_unpaged_count [where M = every_thread and V = thread_number and I = id
      and threads = "[1 ..< 24]" and q = third_page
      and r = "\<lparr>items = [13, 12, 11, 10, 9], total = 23, reported_limit = Num 5,
        reported_offset = Num 10\<rparr>"]
  note th2 = total_is_unpaged_count [where W = by_score and opps = five_opportunities
      and q = score_range
      and r' = "\<lparr>items = [scored 4 80, scored 3 65, scored 2 50], total = 3,
        reported_limit = Num 10, reported_offset = Num 0\<rparr>"]
  from th1 [THEN conjunct2, THEN conjunct2, THEN conjunct1, THEN mp, OF third_page_threads] obtain full where
    "getThreads every_thread thread_number id [1 ..< 24]
     \<lparr>predicates = thread_predicates_of third_page, limit = None, offset = None,
      sortBy = third_page ''sortBy'',
      sortDirection = Some (direction_or_desc (third_page ''sortDirection''))\<rparr> = Inr full"
    by blast
  with t have t': "getThreads every_thread thread_number id [1 ..< 24]
     \<lparr>predicates = thread_predicates_of third_page, limit = None, offset = None,
      sortBy = third_page ''sortBy'',
      sortDirection = Some (direction_or_desc (third_page ''sortDirection''))\<rparr> =
     Inr [23, 22, 21, 20, 19, 18, 17, 16, 15, 14, 13, 12, 11, 10, 9, 8, 7, 6, 5, 4, 3, 2, 1]"
    by simp
  from th2 [THEN conjunct2, THEN conjunct2, THEN conjunct2, THEN mp, OF score_range_opportunities] obtain full' where
    "getOpportunities by_score five_opportunities
     \<lparr>predicates = opportunity_predicates_of score_range, limit = None, offset = None,
      sortBy = score_range ''sortBy'',
      sortDirection = Some (direction_or_desc (score_range ''sortDirection''))\<rparr> = Inr full'"
    by blast
  with o have o': "getOpportunities by_score five_opportunities
     \<lparr>predicates = opportunity_predicates_of score_range, limit = None, offset = None,
      sortBy = score_range ''sortBy'',
      sortDirection = Some (direction_or_desc (score_range ''sortDirection''))\<rparr> =
     Inr [scored 4 80, scored 3 65, scored 2 50]"
    by simp
  from t' o' third_page_threads score_range_opportunities show ?thesis by blast
qed

theorem score_range_filter_witness:
  "score_range ''scoreMin'' = Some ''50'' \<and> score_range ''scoreMax'' = Some ''80'' \<and>
   get_opportunities_route (getOpportunities by_score five_opportunities) score_range =
     Reply 200 \<lparr>items = [scored 4 80, scored 3 65, scored 2 50], total = 3,
                reported_limit = Num 10, reported_offset = Num 0\<rparr> \<and>
   50 \<le> score (scored 2 50) \<and> score (scored 4 80) \<le> 80 \<and>
   length (filter (\<lambda>opp. 50 \<le> score opp \<and> score opp \<le> 80) five_opportunities) = 3"
proof -
  have a: "score_range ''scoreMin'' = Some ''50''" and b: "score_range ''scoreMax'' = Some ''80''"
    by (simp_all add: score_range_def)
  have others: "score_range ''threadId'' = None \<and> score_range ''intent'' = None \<and>
      score_range ''score'' = None \<and> score_range ''serpMatch'' = None \<and>
      score_range ''action'' = None"
    by (simp add: score_range_def)
  note th = score_range_filter [OF a b score_range_opportunities]
  from th have "50 \<le> score (scored 2 50)" and "score (scored 4 80) \<le> 80"
    by simp_all
  moreover from th others
  have "length (filter (\<lambda>opp. 50 \<le> score opp \<and> score opp \<le> 80) five_opportunities) = 3"
    by simp
  ultimately show ?thesis using a b score_range_opportunities by blast
qed

section \<open>The scheduler\<close>

lemma single_flight_step: "single_flight s \<Longrightarrow> single_flight (step s e)"
  by (cases e)
    (auto simp: single_flight_def startCrawlerJob_def stopCrawlerJob_def runCrawlerNow_def
      timer_fire_def begin_pass_def end_pass_def)

lemma single_flight_foldl: "single_flight s \<Longrightarrow> single_flight (foldl step s es)"
  by (induction es arbitrary: s) (simp_all add: single_flight_step)

lemma single_flight_run: "single_flight (run_events es)"
  unfolding run_events_def
  by (rule single_flight_foldl) (simp add: single_flight_def initial_scheduler_def)

text \<open>
  C1.  After every sequence of start, stop, run-now and timer events, with the ends of
  passes anywhere between them, at most one pass of the Orchestrator is under way; the
  mode is RUNNING exactly while one is, and in that mode a further run-now is rejected
  and a timer tick is dropped, neither starting a second pass.
\<close>

theorem at_most_one_pass:
  "passes (run_events es) \<le> 1 \<and>
   (mode_of (run_events es) = RUNNING \<longleftrightarrow> passes (run_events es) = 1) \<and>
   (mode_of (run_events es) = RUNNING \<longrightarrow>
      fst (runCrawlerNow (run_events es)) = Inl (Thrown ''AlreadyRunning'') \<and>
      passes (step (run_events es) RunNow) = 1 \<and>
      passes (step (run_events es) TimerFire) = 1)"
  using single_flight_run [of es]
  by (auto simp: single_flight_def mode_of_def runCrawlerNow_def timer_fire_def split: if_splits)

theorem at_most_one_pass_witness:
  "mode_of (run_events [Start, TimerFire, RunNow, Stop]) = RUNNING \<and>
   passes (run_events [Start, TimerFire, RunNow, Stop]) = 1 \<and>
   passes (step (run_events [Start, TimerFire, RunNow, Stop]) RunNow) = 1 \<and>
   passes (step (run_events [Start, TimerFire, RunNow, Stop]) TimerFire) = 1 \<and>
   mode_of (run_events [Start, TimerFire, RunNow, Stop, PassFinished]) = STOPPED"
proof -
  have m: "mode_of (run_events [Start, TimerFire, RunNow, Stop]) = RUNNING"
    by (simp add: run_events_def initial_scheduler_def startCrawlerJob_def stopCrawlerJob_def
        runCrawlerNow_def timer_fire_def begin_pass_def mode_of_def)
  have f: "mode_of (run_events [Start, TimerFire, RunNow, Stop, PassFinished]) = STOPPED"
    by (simp add: run_events_def initial_scheduler_def startCrawlerJob_def stopCrawlerJob_def
        runCrawlerNow_def timer_fire_def begin_pass_def end_pass_def mode_of_def)
  from at_most_one_pass [of "[Start, TimerFire, RunNow, Stop]"] m f show ?thesis
    by blast
qed

text \<open>
  C4, as the model has it.  The claim that from every state two calls of start in a row
  return true then false fails in the SCHEDULED state, which is the state the default
  start at the end of \<^verbatim>\<open>registerRoutes\<close> leaves behind: there the first call already
  returns false, and the handler answers with status 400.
\<close>

theorem start_twice_counterexample:
  "startCrawlerJob \<lparr>timer_armed = True, in_flight = False, passes = 0\<rparr> =
     (False, \<lparr>timer_armed = True, in_flight = False, passes = 0\<rparr>) \<and>
   snd (startCrawlerJob initial_scheduler) = \<lparr>timer_armed = True, in_flight = False, passes = 0\<rparr> \<and>
   scheduler_start_route (returned startCrawlerJob)
       \<lparr>timer_armed = True, in_flight = False, passes = 0\<rparr> =
     (Failure 400 ''Crawler job is already running'',
      \<lparr>timer_armed = True, in_flight = False, passes = 0\<rparr>)"
  by (simp add: startCrawlerJob_def mode_of_def initial_scheduler_def scheduler_start_route_def
      returned_def)

text \<open>
  C4, amended.  Start and stop report an already-in-state condition by their boolean
  result, and the handlers answer it with status 400, never 500: from the STOPPED state
  two calls of start in a row return true then false; from every state the second of two
  calls of start in a row returns false; stop called while STOPPED returns false.
\<close>

theorem already_in_state_reported:
  "(mode_of s = STOPPED \<longrightarrow>
      fst (startCrawlerJob s) = True \<and> fst (startCrawlerJob (snd (startCrawlerJob s))) = False) \<and>
   fst (startCrawlerJob (snd (startCrawlerJob s))) = False \<and>
   (mode_of s = STOPPED \<longrightarrow> fst (stopCrawlerJob s) = False) \<and>
   fst (scheduler_start_route (returned startCrawlerJob) s) =
     (if mode_of s = STOPPED then Reply 200 ''Crawler job scheduled successfully''
      else Failure 400 ''Crawler job is already running'') \<and>
   fst (scheduler_stop_route (returned stopCrawlerJob) s) =
     (if mode_of s = SCHEDULED then Reply 200 ''Crawler job stopped successfully''
      else Failure 400 ''No crawler job is running'')"
  by (auto simp: startCrawlerJob_def stopCrawlerJob_def mode_of_def scheduler_start_route_def
      scheduler_stop_route_def returned_def split: if_splits)

theorem already_in_state_reported_witness:
  "mode_of initial_scheduler = STOPPED \<and>
   fst (startCrawlerJob initial_scheduler) = True \<and>
   fst (startCrawlerJob (snd (startCrawlerJob initial_scheduler))) = False \<and>
   fst (stopCrawlerJob initial_scheduler) = False \<and>
   fst (scheduler_stop_route (returned stopCrawlerJob) initial_scheduler) =
     Failure 400 ''No crawler job is running''"
proof -
  have m: "mode_of initial_scheduler = STOPPED"
    by (simp add: mode_of_def initial_scheduler_def)
  from already_in_state_reported [of initial_scheduler] m show ?thesis
    by simp
qed

section \<open>Refreshing the opportunities\<close>

lemma keys_overwrite: "map thread_ref (overwrite c rows) = map thread_ref rows"
  by (induction rows) simp_all

lemma overwrite_same_key:
  "thread_ref d = thread_ref c \<Longrightarrow> overwrite d (overwrite c rows) = overwrite d rows"
  by (induction rows) simp_all

lemma overwrite_commute:
  "thread_ref d \<noteq> thread_ref c \<Longrightarrow>
   overwrite d (overwrite c rows) = overwrite c (overwrite d rows)"
  by (induction rows) auto

lemma overwrite_append:
  "thread_ref d \<in> set (map thread_ref rows) \<Longrightarrow> overwrite d (rows @ ys) = overwrite d rows @ ys"
  by (induction rows) auto

lemma overwrite_append_new:
  "thread_ref d \<notin> set (map thread_ref rows) \<Longrightarrow> overwrite d (rows @ ys) = rows @ overwrite d ys"
  by (induction rows) auto

lemma upsert_row_same_key:
  assumes "thread_ref d = thread_ref c"
  shows "upsert_row (upsert_row X c) d = upsert_row X d"
proof (cases X)
  case (Pair rows fresh)
  show ?thesis
  proof (cases "thread_ref c \<in> set (map thread_ref rows)")
    case True
    with assms Pair show ?thesis
      by (simp add: keys_overwrite overwrite_same_key del: set_map)
  next
    case False
    with assms Pair show ?thesis
      by (simp add: overwrite_append_new del: set_map)
  qed
qed

lemma upsert_row_commute:
  assumes "thread_ref d \<noteq> thread_ref c" "thread_ref d \<in> set (map thread_ref (fst X))"
  shows "upsert_row (upsert_row X c) d = upsert_row (upsert_row X d) c"
proof (cases X)
  case (Pair rows fresh)
  show ?thesis
  proof (cases "thread_ref c \<in> set (map thread_ref rows)")
    case True
    with assms Pair show ?thesis
      by (simp add: keys_overwrite overwrite_commute del: set_map)
  next
    case False
    with assms Pair show ?thesis
      by (simp add: keys_overwrite overwrite_append del: set_map)
  qed
qed

lemma keys_upsert_row:
  "set (map thread_ref (fst (upsert_row X c))) = insert (thread_ref c) (set (map thread_ref (fst X)))"
  by (cases X) (auto simp: keys_overwrite simp del: set_map)

lemma keys_foldl_upsert_row:
  "set (map thread_ref (fst (foldl upsert_row X cs))) =
     set (map thread_ref (fst X)) \<union> thread_ref ` set cs"
  by (induction cs arbitrary: X) (auto simp: keys_upsert_row simp del: set_map)

lemma upsert_row_absorbed:
  assumes "\<forall>d \<in> set ds. thread_ref d \<in> set (map thread_ref (fst Z))"
  shows "upsert_row (foldl upsert_row (upsert_row Z c) ds) c =
    upsert_row (foldl upsert_row Z ds) c"
  using assms
proof (induction ds arbitrary: Z)
  case Nil
  then show ?case by (simp add: upsert_row_same_key)
next
  case (Cons d ds)
  have later: "\<forall>e \<in> set ds. thread_ref e \<in> set (map thread_ref (fst (upsert_row Z d)))"
    using Cons.prems by (simp add: keys_upsert_row del: set_map)
  show ?case
  proof (cases "thread_ref d = thread_ref c")
    case True
    then show ?thesis by (simp add: upsert_row_same_key)
  next
    case False
    with Cons.prems have "upsert_row (upsert_row Z c) d = upsert_row (upsert_row Z d) c"
      by (intro upsert_row_commute) simp_all
    with Cons.IH [OF later] show ?thesis by simp
  qed
qed

lemma foldl_upsert_row_idem:
  "foldl upsert_row (foldl upsert_row X cs) cs = foldl upsert_row X cs"
proof (induction cs rule: rev_induct)
  case Nil
  then show ?case by simp
next
  case (snoc c cs)
  let ?Y = "foldl upsert_row X cs"
  have present: "\<forall>d \<in> set cs. thread_ref d \<in> set (map thread_ref (fst ?Y))"
    by (simp add: keys_foldl_upsert_row del: set_map)
  have "foldl upsert_row (foldl upsert_row X (cs @ [c])) (cs @ [c]) =
      upsert_row (foldl upsert_row (upsert_row ?Y c) cs) c"
    by simp
  also have "\<dots> = upsert_row (foldl upsert_row ?Y cs) c"
    by (rule upsert_row_absorbed [OF present])
  also have "\<dots> = upsert_row ?Y c"
    by (simp add: snoc.IH)
  finally show ?case by simp
qed

lemma timeless_overwrite:
  "map timeless (overwrite c rows) = overwrite (timeless c) (map timeless rows)"
  by (induction rows) (simp_all add: timeless_def)

lemma timeless_upsert_row:
  "timeless_table (upsert_row X c) = upsert_row (timeless_table X) (timeless c)"
proof (cases X)
  case (Pair rows fresh)
  have k: "map thread_ref (map timeless rows) = map thread_ref rows"
    by (simp add: timeless_def)
  have t: "thread_ref (timeless c) = thread_ref c"
    by (simp add: timeless_def)
  show ?thesis
    unfolding Pair timeless_table_def
    using k by (simp add: t timeless_overwrite del: set_map map_map) (simp add: timeless_def)
qed

lemma timeless_foldl_upsert_row:
  "timeless_table (foldl upsert_row X cs) = foldl upsert_row (timeless_table X) (map timeless cs)"
  by (induction cs arbitrary: X) (simp_all add: timeless_upsert_row)

lemma upsertOpportunity_table:
  "upsertOpportunity c st =
    st\<lparr>stored_opportunities := fst (upsert_row (table_of st) c),
       next_opportunity_id := snd (upsert_row (table_of st) c)\<rparr>"
  by (simp add: upsertOpportunity_def table_of_def split: prod.splits)

lemma table_of_update:
  "table_of (st\<lparr>stored_opportunities := rows, next_opportunity_id := fresh\<rparr>) = (rows, fresh)"
  by (simp add: table_of_def)

lemma foldl_refresh_thread:
  "foldl (refresh_thread cfg st0 now) (k, st) ts =
    (k + length ts,
     st\<lparr>stored_opportunities :=
          fst (foldl upsert_row (table_of st) (map (computed_opportunity cfg st0 now) ts)),
        next_opportunity_id :=
          snd (foldl upsert_row (table_of st) (map (computed_opportunity cfg st0 now) ts))\<rparr>)"
proof (induction ts arbitrary: k st)
  case Nil
  then show ?case by (simp add: table_of_def)
next
  case (Cons t ts)
  let ?c = "computed_opportunity cfg st0 now t"
  let ?st = "upsertOpportunity ?c st"
  have tab: "table_of ?st = upsert_row (table_of st) ?c"
    unfolding upsertOpportunity_table table_of_update by simp
  have "foldl (refresh_thread cfg st0 now) (k, st) (t # ts) =
      foldl (refresh_thread cfg st0 now) (Suc k, ?st) ts"
    by (simp add: refresh_thread_def)
  also have "\<dots> = (Suc k + length ts,
     ?st\<lparr>stored_opportunities :=
          fst (foldl upsert_row (table_of ?st) (map (computed_opportunity cfg st0 now) ts)),
        next_opportunity_id :=
          snd (foldl upsert_row (table_of ?st) (map (computed_opportunity cfg st0 now) ts))\<rparr>)"
    by (rule Cons.IH)
  also have "\<dots> = (k + length (t # ts),
     st\<lparr>stored_opportunities :=
          fst (foldl upsert_row (table_of st) (map (computed_opportunity cfg st0 now) (t # ts))),
        next_opportunity_id :=
          snd (foldl upsert_row (table_of st) (map (computed_opportunity cfg st0 now) (t # ts)))\<rparr>)"
    unfolding tab by (simp add: upsertOpportunity_table)
  finally show ?case .
qed

lemma refreshOpportunities_eq:
  "refreshOpportunities cfg now st =
    (length (stored_threads st),
     st\<lparr>stored_opportunities :=
          fst (foldl upsert_row (table_of st)
                 (map (computed_opportunity cfg st now) (stored_threads st))),
        next_opportunity_id :=
          snd (foldl upsert_row (table_of st)
                 (map (computed_opportunity cfg st now) (stored_threads st)))\<rparr>)"
  by (simp add: refreshOpportunities_def foldl_refresh_thread)

lemma timeless_computed:
  assumes "stored_programs st' = stored_programs st"
    "stored_serp_results st' = stored_serp_results st"
  shows "timeless (computed_opportunity cfg st' now' t) = timeless (computed_opportunity cfg st now t)"
  using assms by (simp add: computed_opportunity_def timeless_def Let_def)

text \<open>
  C8.  A second refresh, with no change to threads, programs or SERP results in between,
  leaves every opportunity row as the first refresh wrote it, in the same order and
  under the same identifiers, with the same scores and actions (only the timestamp is
  fresh); each call returns the number of opportunities it has written, one per stored
  thread, and the handler answers that count.
\<close>

theorem refresh_idempotent:
  "map timeless
     (stored_opportunities
        (snd (refreshOpportunities cfg now' (snd (refreshOpportunities cfg now st))))) =
     map timeless (stored_opportunities (snd (refreshOpportunities cfg now st))) \<and>
   fst (refreshOpportunities cfg now st) = length (stored_threads st) \<and>
   fst (refreshOpportunities cfg now' (snd (refreshOpportunities cfg now st))) =
     length (stored_threads st) \<and>
   refresh_opportunities_route (returned (refreshOpportunities cfg now)) st =
     (Reply 200 (length (stored_threads st)), snd (refreshOpportunities cfg now st))"
proof -
  let ?cs = "map (computed_opportunity cfg st now) (stored_threads st)"
  let ?once = "refreshOpportunities cfg now st"
  let ?st1 = "snd ?once"
  let ?twice = "refreshOpportunities cfg now' ?st1"
  let ?cs' = "map (computed_opportunity cfg ?st1 now') (stored_threads ?st1)"
  have same: "stored_threads ?st1 = stored_threads st" "stored_programs ?st1 = stored_programs st"
    "stored_serp_results ?st1 = stored_serp_results st"
    by (simp_all add: refreshOpportunities_eq)
  have t1: "table_of ?st1 = foldl upsert_row (table_of st) ?cs"
    by (simp add: refreshOpportunities_eq table_of_def)
  have t2: "table_of (snd ?twice) = foldl upsert_row (table_of ?st1) ?cs'"
    by (simp add: refreshOpportunities_eq [of cfg now' ?st1] table_of_def)
  have cs: "map timeless ?cs' = map timeless ?cs"
    using timeless_computed [OF same(2,3)] by (simp add: same(1))
  have "timeless_table (table_of (snd ?twice)) =
      foldl upsert_row (foldl upsert_row (timeless_table (table_of st)) (map timeless ?cs))
        (map timeless ?cs')"
    by (simp only: t2 t1 timeless_foldl_upsert_row)
  also have "\<dots> = foldl upsert_row (timeless_table (table_of st)) (map timeless ?cs)"
    by (simp only: cs foldl_upsert_row_idem)
  also have "\<dots> = timeless_table (table_of ?st1)"
    by (simp only: t1 timeless_foldl_upsert_row)
  finally have "timeless_table (table_of (snd ?twice)) = timeless_table (table_of ?st1)" .
  then have "map timeless (stored_opportunities (snd ?twice)) =
      map timeless (stored_opportunities ?st1)"
    by (simp add: timeless_table_def table_of_def)
  moreover have "fst ?once = length (stored_threads st)"
    by (simp add: refreshOpportunities_eq)
  moreover have "fst ?twice = length (stored_threads st)"
    by (simp add: refreshOpportunities_eq [of cfg now' ?st1] same(1))
  moreover have "refresh_opportunities_route (returned (refreshOpportunities cfg now)) st =
      (Reply 200 (length (stored_threads st)), ?st1)"
    by (simp add: refresh_opportunities_route_def returned_def refreshOpportunities_eq)
  ultimately show ?thesis by simp
qed


lemma demo_once:
  "refreshOpportunities demo_scoring 10 demo_store =
    (2, demo_store
       \<lparr>stored_opportunities :=
          [\<lparr>ident = 1, thread_ref = 1, score = 72, intent = REVIEW, matched_programs = [7],
            serp_match = True, action = COMMENT, computed_at = 10\<rparr>,
           \<lparr>ident = 2, thread_ref = 2, score = 4, intent = OTHER, matched_programs = [],
            serp_match = False, action = SKIP, computed_at = 10\<rparr>],
        next_opportunity_id := 3\<rparr>)"
  by code_simp

theorem refresh_idempotent_witness:
  "map timeless
     (stored_opportunities
        (snd (refreshOpportunities demo_scoring 20
           (snd (refreshOpportunities demo_scoring 10 demo_store))))) =
     [\<lparr>ident = 1, thread_ref = 1, score = 72, intent = REVIEW, matched_programs = [7],
       serp_match = True, action = COMMENT, computed_at = 0\<rparr>,
      \<lparr>ident = 2, thread_ref = 2, score = 4, intent = OTHER, matched_programs = [],
       serp_match = False, action = SKIP, computed_at = 0\<rparr>] \<and>
   fst (refreshOpportunities demo_scoring 20
          (snd (refreshOpportunities demo_scoring 10 demo_store))) = 2"
proof -
  have len: "length (stored_threads demo_store) = 2"
    by (simp add: demo_store_def)
  from refresh_idempotent [of demo_scoring 20 10 demo_store] show ?thesis
    unfolding len by (simp add: demo_once timeless_def)
qed

end
